theory Spec2Isabelle
  imports Main
begin

section \<open>JavaScript strings and values\<close>

text \<open>
  A JavaScript string is a sequence of UTF-16 code units; the dialog rules match Japanese
  text, so a string is modelled as the list of its code units. \<open>asc\<close> embeds an ASCII
  literal; text outside ASCII is written as the list of its code units.
\<close>

type_synonym jsstring = "nat list"

definition asc :: "string \<Rightarrow> jsstring" where
  "asc s = map of_char s"

text \<open>
  The values that reach the server are the values of parsed JSON and of the engine's own
  results. \<open>JNum n\<close> is the number with the integer value \<open>n\<close>, a safe integer (both
  zeros are \<open>JNum 0\<close>), \<open>JNaN\<close> is NaN. \<open>JNumberOf v\<close> is the result of \<open>Number(v)\<close>
  where this model does not compute it (see \<open>toNumber\<close>); a number of parsed JSON that is
  not a safe integer is \<open>JNumberOf\<close> of its literal, so every number written \<open>JNumberOf\<close>
  that the engine tests for truth is non-zero. \<open>JObj\<close> is a plain object, the list of
  its own properties in the order in which they were added (the program reads properties
  by name, and the order in which JavaScript enumerates them plays no role in it), \<open>JArr\<close>
  an array.
\<close>

datatype jsval =
    JUndefined
  | JNull
  | JBool bool
  | JNum int
  | JNaN
  | JNumberOf jsval
  | JStr jsstring
  | JObj "(jsstring \<times> jsval) list"
  | JArr "jsval list"

type_synonym jsobject = "(jsstring \<times> jsval) list"

text \<open>\<open>obj[k] = v\<close> on an object kept as an association list.\<close>

fun setProp :: "jsstring \<Rightarrow> jsval \<Rightarrow> jsobject \<Rightarrow> jsobject" where
  "setProp k v [] = [(k, v)]"
| "setProp k v ((k', v') # ps) = (if k = k' then (k, v) # ps else (k', v') # setProp k v ps)"

text \<open>
  \<open>x.k\<close> for the property names the engine reads (\<open>config\<close>, \<open>docId\<close>, \<open>lastChoice\<close>,
  \<open>questions\<close>, \<open>difficulty\<close>, \<open>type\<close>, \<open>stored_filename\<close>): none of them is inherited
  from a prototype, so an object yields its own property or \<open>undefined\<close>, and an array
  or a primitive yields \<open>undefined\<close>.
  The engine reads a property only of a truthy value, never of \<open>null\<close> or \<open>undefined\<close>.
\<close>

fun getProp :: "jsval \<Rightarrow> jsstring \<Rightarrow> jsval" where
  "getProp (JObj ps) k = (case map_of ps k of Some v \<Rightarrow> v | None \<Rightarrow> JUndefined)"
| "getProp _ k = JUndefined"

text \<open>The object spread \<open>{...a, ...b}\<close>.\<close>

definition spread :: "jsobject \<Rightarrow> jsobject \<Rightarrow> jsobject" where
  "spread a b = fold (\<lambda>(k, v). setProp k v) b a"

text \<open>Truthiness, as tested by \<open>||\<close>, \<open>&&\<close>, \<open>if\<close> and \<open>filter(Boolean)\<close>.\<close>

fun truthy :: "jsval \<Rightarrow> bool" where
  "truthy JUndefined = False"
| "truthy JNull = False"
| "truthy (JBool b) = b"
| "truthy (JNum n) = (n \<noteq> 0)"
| "truthy JNaN = False"
| "truthy (JNumberOf v) = True"
| "truthy (JStr s) = (s \<noteq> [])"
| "truthy (JObj ps) = True"
| "truthy (JArr xs) = True"

text \<open>\<open>a || b\<close> and \<open>a ?? b\<close>.\<close>

definition orElse :: "jsval \<Rightarrow> jsval \<Rightarrow> jsval" where
  "orElse a b = (if truthy a then a else b)"

definition nullish :: "jsval \<Rightarrow> jsval \<Rightarrow> jsval" where
  "nullish a b = (if a = JUndefined \<or> a = JNull then b else a)"

subsection \<open>Built-in functions taken as parameters\<close>

text \<open>
  Three built-in functions of JavaScript are computed by this model on a part of their
  domain only: \<open>toLowerCase\<close> on the strings of ASCII; \<open>Number\<close> on the strings of one
  to fifteen digits and on the values that are not strings, objects or arrays; the string
  conversion on the values that are not objects or arrays. Outside these parts they follow
  tables and algorithms of the language (the Unicode case mapping, the reading and the
  printing of floating-point numbers, the conversion of objects to primitive values) that
  are not in the repository. There the model takes them from a parameter \<open>js\<close>, and
  what is proved holds for every value of the parameter.

  \<open>unicodeLower js s\<close> is \<open>s.toLowerCase()\<close>, \<open>stringOf js v\<close> is \<open>String(v)\<close>, and
  \<open>numberOf js v\<close> describes what \<open>Number(v)\<close> yields as far as the program observes
  it: the conversion throws (that of an object may), or it yields NaN or an infinity,
  given with its string, or a finite number, given with its integer value, if it is an
  integer, and with its string.
\<close>

datatype numdesc = Throws | NotFinite jsstring | Finite "int option" jsstring

record builtins =
  unicodeLower :: "jsstring \<Rightarrow> jsstring"
  numberOf :: "jsval \<Rightarrow> numdesc"
  stringOf :: "jsval \<Rightarrow> jsstring"

subsection \<open>Decimal strings\<close>

function decNat :: "nat \<Rightarrow> jsstring" where
  "decNat n = (if n < 10 then [0x30 + n] else decNat (n div 10) @ [0x30 + n mod 10])"
  by pat_completeness auto

termination decNat
  by (relation "measure id") auto

declare decNat.simps [simp del]

text \<open>The string of a number that is a safe integer.\<close>

definition decStr :: "int \<Rightarrow> jsstring" where
  "decStr i = (if i < 0 then 0x2D # decNat (nat (- i)) else decNat (nat i))"

subsection \<open>Character classes\<close>

text \<open>\<open>\s\<close> and the characters \<open>trim\<close> removes: WhiteSpace and LineTerminator.\<close>

definition isSpace :: "nat \<Rightarrow> bool" where
  "isSpace c = (c \<in> {0x9, 0xA, 0xB, 0xC, 0xD, 0x20, 0xA0, 0x1680, 0x2028, 0x2029,
                       0x202F, 0x205F, 0x3000, 0xFEFF} \<or> (0x2000 \<le> c \<and> c \<le> 0x200A))"

definition isDigit :: "nat \<Rightarrow> bool" where
  "isDigit c = (0x30 \<le> c \<and> c \<le> 0x39)"

text \<open>\<open>\w\<close>, which decides \<open>\b\<close>.\<close>

definition isWord :: "nat \<Rightarrow> bool" where
  "isWord c = ((0x30 \<le> c \<and> c \<le> 0x39) \<or> (0x41 \<le> c \<and> c \<le> 0x5A) \<or> c = 0x5F
               \<or> (0x61 \<le> c \<and> c \<le> 0x7A))"

text \<open>The characters \<open>.\<close> does not match.\<close>

definition isLineTerm :: "nat \<Rightarrow> bool" where
  "isLineTerm c = (c \<in> {0xA, 0xD, 0x2028, 0x2029})"

text \<open>The class \<open>[-\<dots>]\<close> of the menu rules: hyphen-minus, U+2010, U+2013, U+2014.\<close>

definition isDash :: "nat \<Rightarrow> bool" where
  "isDash c = (c \<in> {0x2D, 0x2010, 0x2013, 0x2014})"

text \<open>\<open>[,\s]\<close>, the separator class of the set command.\<close>

definition isSep :: "nat \<Rightarrow> bool" where
  "isSep c = (c = 0x2C \<or> isSpace c)"

text \<open>
  Case folding of the \<open>i\<close> flag (without \<open>u\<close>): a pattern character \<open>p\<close> matches an
  input code unit \<open>c\<close> when both canonicalise to the same code unit. Every pattern
  character of this program is ASCII, a kana, a kanji or a dash; for those the test is
  \<open>canon c = canon p\<close> with \<open>canon\<close> the ASCII upper-casing, because no code unit outside
  ASCII canonicalises to an ASCII one and none canonicalises to a kana, kanji or dash
  other than itself.
\<close>

definition canon :: "nat \<Rightarrow> nat" where
  "canon c = (if 0x61 \<le> c \<and> c \<le> 0x7A then c - 0x20 else c)"

text \<open>
  \<open>s.toLowerCase()\<close>. In a string of ASCII the letters \<open>A\<close> to \<open>Z\<close> are replaced and
  nothing else is; a string with a code unit outside ASCII is mapped by the Unicode case
  mapping, \<open>unicodeLower js\<close>.
\<close>

definition lowerUnit :: "nat \<Rightarrow> nat" where
  "lowerUnit c = (if 0x41 \<le> c \<and> c \<le> 0x5A then c + 0x20 else c)"

definition toLowerCase :: "builtins \<Rightarrow> jsstring \<Rightarrow> jsstring" where
  "toLowerCase js s = (if list_all (\<lambda>c. c < 0x80) s then map lowerUnit s else unicodeLower js s)"

definition trim :: "jsstring \<Rightarrow> jsstring" where
  "trim s = rev (dropWhile isSpace (rev (dropWhile isSpace s)))"

subsection \<open>Regular expressions\<close>

text \<open>
  Each regular expression of the source is written with the combinators below, one per
  construct, in continuation style: a matcher takes the matcher of the rest of the pattern
  and the rest of the input, and tries its alternatives in the order of the backtracking
  matcher of JavaScript (a greedy quantifier tries the longer match first), so that the
  first success is the match \<open>exec\<close> returns.
\<close>

text \<open>A literal, compared under the \<open>i\<close> flag; the result is the rest of the input.\<close>

fun ciPrefix :: "jsstring \<Rightarrow> jsstring \<Rightarrow> jsstring option" where
  "ciPrefix [] s = Some s"
| "ciPrefix (p # ps) [] = None"
| "ciPrefix (p # ps) (c # cs) = (if canon c = canon p then ciPrefix ps cs else None)"

definition mLit :: "jsstring \<Rightarrow> (jsstring \<Rightarrow> 'a option) \<Rightarrow> jsstring \<Rightarrow> 'a option" where
  "mLit p k s = (case ciPrefix p s of Some r \<Rightarrow> k r | None \<Rightarrow> None)"

text \<open>\<open>[class]?\<close>\<close>

definition mOpt :: "(nat \<Rightarrow> bool) \<Rightarrow> (jsstring \<Rightarrow> 'a option) \<Rightarrow> jsstring \<Rightarrow> 'a option" where
  "mOpt P k s =
     (case (case s of c # r \<Rightarrow> (if P c then k r else None) | [] \<Rightarrow> None) of
        Some x \<Rightarrow> Some x
      | None \<Rightarrow> k s)"

text \<open>\<open>[class]*\<close> and \<open>[class]+\<close>, greedy.\<close>

fun mStar :: "(nat \<Rightarrow> bool) \<Rightarrow> (jsstring \<Rightarrow> 'a option) \<Rightarrow> jsstring \<Rightarrow> 'a option" where
  "mStar P k [] = k []"
| "mStar P k (c # cs) =
     (if P c then (case mStar P k cs of Some x \<Rightarrow> Some x | None \<Rightarrow> k (c # cs))
      else k (c # cs))"

definition mPlus :: "(nat \<Rightarrow> bool) \<Rightarrow> (jsstring \<Rightarrow> 'a option) \<Rightarrow> jsstring \<Rightarrow> 'a option" where
  "mPlus P k s = (case s of c # cs \<Rightarrow> (if P c then mStar P k cs else None) | [] \<Rightarrow> None)"

text \<open>\<open>.*\<close>\<close>

definition dotStar :: "(jsstring \<Rightarrow> 'a option) \<Rightarrow> jsstring \<Rightarrow> 'a option" where
  "dotStar k s = mStar (\<lambda>c. \<not> isLineTerm c) k s"

text \<open>\<open>a|b\<close>\<close>

definition mAlt :: "(jsstring \<Rightarrow> 'a option) \<Rightarrow> (jsstring \<Rightarrow> 'a option) \<Rightarrow> jsstring \<Rightarrow> 'a option" where
  "mAlt f g s = (case f s of Some x \<Rightarrow> Some x | None \<Rightarrow> g s)"

text \<open>\<open>\b\<close> directly after a matched word character.\<close>

definition mWordEnd :: "(jsstring \<Rightarrow> 'a option) \<Rightarrow> jsstring \<Rightarrow> 'a option" where
  "mWordEnd k s = (case s of [] \<Rightarrow> k s | c # _ \<Rightarrow> (if isWord c then None else k s))"

text \<open>\<open>$\<close> (no \<open>m\<close> flag), and the end of the pattern.\<close>

definition mEnd :: "jsstring \<Rightarrow> unit option" where
  "mEnd s = (if s = [] then Some () else None)"

definition mDone :: "jsstring \<Rightarrow> unit option" where
  "mDone s = Some ()"

text \<open>A final \<open>(\d+)\<close>: the capture is the longest run of digits, which must not be empty.\<close>

definition mDigits :: "jsstring \<Rightarrow> jsstring option" where
  "mDigits s = (let ds = takeWhile isDigit s in if ds = [] then None else Some ds)"

text \<open>A pattern without \<open>^\<close> is tried at every start index, from the left.\<close>

fun search :: "(jsstring \<Rightarrow> 'a option) \<Rightarrow> jsstring \<Rightarrow> 'a option" where
  "search m [] = m []"
| "search m (c # cs) = (case m (c # cs) of Some x \<Rightarrow> Some x | None \<Rightarrow> search m cs)"

definition matches :: "'a option \<Rightarrow> bool" where
  "matches r = (r \<noteq> None)"


section \<open>The dialog engine (server.js)\<close>

subsection \<open>Words of the grammar\<close>

text \<open>The Japanese words of the patterns, as code units (in the order of the source).\<close>

definition w_kizon :: jsstring where "w_kizon = [0x65E2, 0x5B58]"
definition w_shiryo :: jsstring where "w_shiryo = [0x8CC7, 0x6599]"
definition w_mondai :: jsstring where "w_mondai = [0x554F, 0x984C]"
definition w_sakusei :: jsstring where "w_sakusei = [0x4F5C, 0x6210]"
definition w_shinki :: jsstring where "w_shinki = [0x65B0, 0x898F]"
definition w_upload :: jsstring where "w_upload = [0x30A2, 0x30C3, 0x30D7, 0x30ED, 0x30FC, 0x30C9]"
definition w_herupu :: jsstring where "w_herupu = [0x30D8, 0x30EB, 0x30D7]"
definition w_tsukaikata :: jsstring where "w_tsukaikata = [0x4F7F, 0x3044, 0x65B9]"
definition w_modoru :: jsstring where "w_modoru = [0x623B, 0x308B]"
definition w_menyu :: jsstring where "w_menyu = [0x30E1, 0x30CB, 0x30E5, 0x30FC]"
definition w_jikkou :: jsstring where "w_jikkou = [0x5B9F, 0x884C]"

subsection \<open>The patterns of matchRuleIntent\<close>

text \<open>Before each pattern its source is quoted, with a Japanese word written as the name
  of its constant without \<open>w_\<close> and the three dashes of the class as \<open>...\<close>.\<close>

text \<open>\<^verbatim>\<open>/(^(1[-...]?1)\b|kizon.*shiryo.*(mondai|sakusei)|kizonshiryo.*sakusei)/i\<close>\<close>

definition re_is11 :: "jsstring \<Rightarrow> bool" where
  "re_is11 t =
     (matches (mLit (asc ''1'') (mOpt isDash (mLit (asc ''1'') (mWordEnd mDone))) t)
      \<or> matches (search
           (mAlt (mLit w_kizon (dotStar (mLit w_shiryo (dotStar
                    (mAlt (mLit w_mondai mDone) (mLit w_sakusei mDone))))))
                 (mLit (w_kizon @ w_shiryo) (dotStar (mLit w_sakusei mDone)))) t))"

text \<open>\<^verbatim>\<open>/(^(1[-...]?2)\b|shinki.*shiryo.*(upload|mondai|sakusei)|upload.*mondai)/i\<close>\<close>

definition re_is12 :: "jsstring \<Rightarrow> bool" where
  "re_is12 t =
     (matches (mLit (asc ''1'') (mOpt isDash (mLit (asc ''2'') (mWordEnd mDone))) t)
      \<or> matches (search
           (mAlt (mLit w_shinki (dotStar (mLit w_shiryo (dotStar
                    (mAlt (mLit w_upload mDone)
                       (mAlt (mLit w_mondai mDone) (mLit w_sakusei mDone)))))))
                 (mLit w_upload (dotStar (mLit w_mondai mDone)))) t))"

text \<open>\<^verbatim>\<open>/(herupu|tsukaikata|help)/i\<close>\<close>

definition re_help :: "jsstring \<Rightarrow> bool" where
  "re_help t =
     matches (search (mAlt (mLit w_herupu mDone)
                       (mAlt (mLit w_tsukaikata mDone) (mLit (asc ''help'') mDone))) t)"

text \<open>\<^verbatim>\<open>/^(modoru|back)$/i\<close>\<close>

definition re_back :: "jsstring \<Rightarrow> bool" where
  "re_back t = matches (mAlt (mLit w_modoru mEnd) (mLit (asc ''back'') mEnd) t)"

text \<open>\<^verbatim>\<open>/^(home|menyu)$/i\<close>\<close>

definition re_home :: "jsstring \<Rightarrow> bool" where
  "re_home t = matches (mAlt (mLit (asc ''home'') mEnd) (mLit w_menyu mEnd) t)"

text \<open>\<^verbatim>\<open>/^(run|jikkou)$/i\<close>\<close>

definition re_run :: "jsstring \<Rightarrow> bool" where
  "re_run t = matches (mAlt (mLit (asc ''run'') mEnd) (mLit w_jikkou mEnd) t)"

text \<open>\<^verbatim>\<open>/^select\s+doc\s*:\s*(\d+)/i.exec(t)\<close>: the first capture group, or None for null.\<close>

definition re_selectDoc :: "jsstring \<Rightarrow> jsstring option" where
  "re_selectDoc t =
     mLit (asc ''select'') (mPlus isSpace (mLit (asc ''doc'') (mStar isSpace
       (mLit (asc '':'') (mStar isSpace mDigits))))) t"

text \<open>\<^verbatim>\<open>/^uploaded\s*:\s*(\d+)/i.exec(t)\<close>\<close>

definition re_uploaded :: "jsstring \<Rightarrow> jsstring option" where
  "re_uploaded t =
     mLit (asc ''uploaded'') (mStar isSpace (mLit (asc '':'') (mStar isSpace mDigits))) t"

text \<open>\<^verbatim>\<open>/^set\s*:/i\<close>\<close>

definition re_set :: "jsstring \<Rightarrow> bool" where
  "re_set t = matches (mLit (asc ''set'') (mStar isSpace (mLit (asc '':'') mDone)) t)"

subsection \<open>parseKV\<close>

text \<open>
  \<^verbatim>\<open>command.replace(/^set\s*:\s*/i, "")\<close>: the pattern is anchored, so a match is a prefix
  and the result is what follows it; without a match the command is unchanged.
\<close>

definition stripSet :: "jsstring \<Rightarrow> jsstring" where
  "stripSet command =
     (case mLit (asc ''set'') (mStar isSpace (mLit (asc '':'') (mStar isSpace Some))) command of
        Some rest \<Rightarrow> rest
      | None \<Rightarrow> command)"

text \<open>\<^verbatim>\<open>kv.split("=")\<close>: the pieces between all occurrences of the separator.\<close>

fun splitOn :: "nat \<Rightarrow> jsstring \<Rightarrow> jsstring list" where
  "splitOn d [] = [[]]"
| "splitOn d (c # cs) =
     (if c = d then [] # splitOn d cs
      else (case splitOn d cs of p # ps \<Rightarrow> (c # p) # ps | [] \<Rightarrow> [[c]]))"

text \<open>
  \<^verbatim>\<open>m.split(/[,\s]+/)\<close>: the pieces between the maximal runs of separators. A separator
  ends the current piece and its whole run is skipped; a leading or trailing run leaves an
  empty piece, and the empty string gives one empty piece.
\<close>

function splitSep :: "jsstring \<Rightarrow> jsstring list" where
  "splitSep [] = [[]]"
| "splitSep (c # cs) =
     (if isSep c then [] # splitSep (dropWhile isSep cs)
      else (case splitSep cs of p # ps \<Rightarrow> (c # p) # ps | [] \<Rightarrow> [[c]]))"
  by pat_completeness auto

termination splitSep
proof (relation "measure length")
  show "wf (measure length)" by simp
next
  fix c :: nat and cs :: jsstring
  have "length (dropWhile isSep cs) \<le> length cs" by (rule length_dropWhile_le)
  then show "(dropWhile isSep cs, c # cs) \<in> measure length" by simp
next
  fix c :: nat and cs :: jsstring
  show "(cs, c # cs) \<in> measure length" by simp
qed

text \<open>
  \<^verbatim>\<open>out[k] = v\<close> on the object literal \<open>out\<close>, for a string \<open>v\<close>: the key \<open>__proto__\<close> is the
  accessor of Object.prototype, whose setter ignores a value that is neither an object nor
  null, so that assignment stores nothing.
\<close>

definition assign :: "jsstring \<Rightarrow> jsstring \<Rightarrow> jsobject \<Rightarrow> jsobject" where
  "assign k v out = (if k = asc ''__proto__'' then out else setProp k (JStr v) out)"

text \<open>
  The body of the loop: \<^verbatim>\<open>const [k, v] = kv.split("=").map(x => x && x.trim());
  if (k && v) out[k.toLowerCase()] = v;\<close>. The destructuring takes the first two pieces;
  with one piece only, \<open>v\<close> is undefined.
\<close>

definition addPair :: "builtins \<Rightarrow> jsstring \<Rightarrow> jsobject \<Rightarrow> jsobject" where
  "addPair js kv out =
     (case map (\<lambda>x. if x = [] then x else trim x) (splitOn 0x3D kv) of
        k # v # _ \<Rightarrow> (if k \<noteq> [] \<and> v \<noteq> [] then assign (toLowerCase js k) v out else out)
      | _ \<Rightarrow> out)"

definition parseKV :: "builtins \<Rightarrow> jsstring \<Rightarrow> jsobject" where
  "parseKV js command =
     (let m = stripSet command;
          kvs = filter (\<lambda>s. s \<noteq> []) (map trim (splitSep m))
      in fold (addPair js) kvs [])"

subsection \<open>Number\<close>

fun digitsVal :: "int \<Rightarrow> jsstring \<Rightarrow> int" where
  "digitsVal acc [] = acc"
| "digitsVal acc (c # cs) = digitsVal (10 * acc + (int c - 0x30)) cs"

text \<open>
  \<open>Number(v)\<close>. It is computed where the result is an integer that a double holds
  exactly and NaN for undefined: a string of one to fifteen ASCII digits is its decimal
  value. Every other conversion (other strings, objects, arrays) is kept as
  \<open>JNumberOf v\<close>, the result of the conversion whatever it is.
\<close>

fun toNumber :: "jsval \<Rightarrow> jsval" where
  "toNumber JUndefined = JNaN"
| "toNumber JNull = JNum 0"
| "toNumber (JBool b) = JNum (if b then 1 else 0)"
| "toNumber (JNum n) = JNum n"
| "toNumber JNaN = JNaN"
| "toNumber (JNumberOf v) = JNumberOf v"
| "toNumber (JStr s) =
     (if s \<noteq> [] \<and> list_all isDigit s \<and> length s \<le> 15 then JNum (digitsVal 0 s)
      else JNumberOf (JStr s))"
| "toNumber (JObj ps) = JNumberOf (JObj ps)"
| "toNumber (JArr xs) = JNumberOf (JArr xs)"

text \<open>
  What \<open>Number(v)\<close> yields, for every value: as \<open>toNumber\<close> computes it, and from the
  parameter where \<open>toNumber\<close> leaves the conversion open (\<open>toNumber\<close> yields no value
  other than the three named).
\<close>

definition numberDesc :: "builtins \<Rightarrow> jsval \<Rightarrow> numdesc" where
  "numberDesc js v =
     (case toNumber v of
        JNum n \<Rightarrow> Finite (Some n) (decStr n)
      | JNaN \<Rightarrow> NotFinite (asc ''NaN'')
      | JNumberOf w \<Rightarrow> numberOf js w
      | _ \<Rightarrow> Throws)"

text \<open>The string of a number that a conversion has yielded.\<close>

fun numText :: "numdesc \<Rightarrow> jsstring" where
  "numText Throws = []"
| "numText (NotFinite t) = t"
| "numText (Finite i t) = t"

text \<open>The string conversion of a value inside a template literal.\<close>

fun strOf :: "builtins \<Rightarrow> jsval \<Rightarrow> jsstring" where
  "strOf js JUndefined = asc ''undefined''"
| "strOf js JNull = asc ''null''"
| "strOf js (JBool b) = (if b then asc ''true'' else asc ''false'')"
| "strOf js (JNum n) = decStr n"
| "strOf js JNaN = asc ''NaN''"
| "strOf js (JNumberOf v) = numText (numberOf js v)"
| "strOf js (JStr s) = s"
| "strOf js (JObj ps) = stringOf js (JObj ps)"
| "strOf js (JArr xs) = stringOf js (JArr xs)"


subsection \<open>Replies\<close>

text \<open>
  A reply is a string or a template literal. A template literal is kept as the list of its
  literal chunks and substituted values: the reply text is the concatenation of the chunks
  and of the string conversions of the values, which this model does not carry out.
\<close>

datatype frag = Lit jsstring | Sub jsval

text \<open>The literal texts of the replies, in the order of the source.\<close>

definition r_root11 :: jsstring where
  "r_root11 = [0x65E2, 0x5B58, 0x8CC7, 0x6599, 0x304B, 0x3089, 0x554F, 0x984C, 0x3092, 0x4F5C,
     0x6210, 0x3057, 0x307E, 0x3059, 0x3002, 0xA, 0x8CC7, 0x6599, 0x3092, 0x9078, 0x629E,
     0x3057, 0x3066, 0x304F, 0x3060, 0x3055, 0x3044, 0xFF08, 0x4F8B] @ asc '': '' @ [0x22]
     @ asc ''select doc: 123'' @ [0x22, 0xFF09, 0x3002, 0xA] @ asc ''- ''
     @ [0x6700, 0x8FD1, 0x4F7F, 0x3063, 0x305F, 0x8CC7, 0x6599] @ asc '': 101, 102, 103''
     @ [0xA] @ asc ''- '' @ [0x8A2D, 0x5B9A, 0x306F, 0x5F8C, 0x304B, 0x3089] @ asc '' ''
     @ [0x22] @ asc ''set: questions=10, difficulty=middle, type=mcq'' @ [0x22] @ asc '' ''
     @ [0x3067, 0x5909, 0x66F4, 0x53EF, 0x80FD, 0x3067, 0x3059, 0x3002]"

definition r_root12 :: jsstring where
  "r_root12 = [0x65B0, 0x898F, 0x8CC7, 0x6599, 0x306E, 0x30A2, 0x30C3, 0x30D7, 0x30ED, 0x30FC,
     0x30C9, 0x304B, 0x3089, 0x958B, 0x59CB, 0x3057, 0x307E, 0x3059, 0x3002, 0xA, 0x30A2,
     0x30C3, 0x30D7, 0x30ED, 0x30FC, 0x30C9, 0x5B8C, 0x4E86, 0x5F8C, 0x3001, 0x22]
     @ asc ''uploaded: <docId>'' @ [0x22] @ asc '' ''
     @ [0x3068, 0x5165, 0x529B, 0x3057, 0x3066, 0x304F, 0x3060, 0x3055, 0x3044, 0xFF08, 0x4F8B]
     @ asc '': '' @ [0x22] @ asc ''uploaded: 201'' @ [0x22, 0xFF09, 0x3002]"

definition r_help :: jsstring where
  "r_help = [0x30D8, 0x30EB, 0x30D7] @ asc '': 1-1 '' @ [0x65E2, 0x5B58, 0x8CC7, 0x6599]
     @ asc '' / 1-2 '' @ [0x65B0, 0x898F, 0x30A2, 0x30C3, 0x30D7, 0x30ED, 0x30FC, 0x30C9]
     @ asc '' '' @ [0x304B, 0x3089, 0x958B, 0x59CB, 0x3057, 0x307E, 0x3059, 0x3002]"

definition r_home :: jsstring where
  "r_home = [0x30E1, 0x30CB, 0x30E5, 0x30FC, 0x306B, 0x623B, 0x308A, 0x307E, 0x3059, 0x3002]"

definition r_back_one :: jsstring where
  "r_back_one = [0x4E00, 0x3064, 0x524D, 0x306B, 0x623B, 0x308A, 0x307E, 0x3059, 0x3002]"

definition r_sel_a :: jsstring where
  "r_sel_a = [0x8CC7, 0x6599] @ asc '' ''"

definition r_sel_b :: jsstring where
  "r_sel_b = asc '' '' @ [0x3092, 0x9078, 0x629E, 0x3057, 0x307E, 0x3057, 0x305F, 0x3002, 0xA,
     0x73FE, 0x5728, 0x306E, 0x8A2D, 0x5B9A] @ asc '': questions=''"

definition r_sel_c :: jsstring where
  "r_sel_c = [0xA, 0x5909, 0x66F4, 0x3059, 0x308B, 0x5834, 0x5408, 0x306F] @ asc '' '' @ [0x22]
     @ asc ''set: questions=20, difficulty=hard''
     @ [0x22, 0x3001, 0x554F, 0x984C, 0x751F, 0x6210, 0x306F] @ asc '' '' @ [0x22]
     @ asc ''run'' @ [0x22] @ asc '' ''
     @ [0x3068, 0x5165, 0x529B, 0x3057, 0x3066, 0x304F, 0x3060, 0x3055, 0x3044, 0x3002]"

definition r_sel_prompt :: jsstring where
  "r_sel_prompt = [0x8CC7, 0x6599, 0x3092, 0x300C] @ asc ''select doc: <id>''
     @ [0x300D, 0x3067, 0x6307, 0x5B9A, 0x3057, 0x3066, 0x304F, 0x3060, 0x3055, 0x3044, 0x3002]"

definition r_back_select :: jsstring where
  "r_back_select = [0x8CC7, 0x6599, 0x9078, 0x629E, 0x306B, 0x623B, 0x308A, 0x307E, 0x3059,
     0x3002]"

definition r_set_a :: jsstring where
  "r_set_a = [0x8A2D, 0x5B9A, 0x3092, 0x66F4, 0x65B0, 0x3057, 0x307E, 0x3057, 0x305F, 0x3002, 0xA]
     @ asc ''questions=''"

definition r_set_c :: jsstring where
  "r_set_c = [0xA, 0x554F, 0x984C, 0x751F, 0x6210, 0x3059, 0x308B, 0x5834, 0x5408, 0x306F]
     @ asc '' '' @ [0x22] @ asc ''run'' @ [0x22] @ asc '' ''
     @ [0x3068, 0x5165, 0x529B, 0x3057, 0x3066, 0x304F, 0x3060, 0x3055, 0x3044, 0x3002]"

definition r_run_a :: jsstring where
  "r_run_a = [0x554F, 0x984C, 0x751F, 0x6210, 0x3092, 0x958B, 0x59CB, 0x3057, 0x307E, 0x3059,
     0xFF08, 0x30C0, 0x30DF, 0x30FC, 0xFF09, 0x3002, 0xA, 0x8CC7, 0x6599] @ asc ''=''"

definition r_run_c :: jsstring where
  "r_run_c = [0xA, 0x751F, 0x6210, 0x304C, 0x5B8C, 0x4E86, 0x3057, 0x307E, 0x3057, 0x305F,
     0x3002, 0x7D50, 0x679C, 0x3092, 0x30D7, 0x30EC, 0x30D3, 0x30E5, 0x30FC, 0x3067, 0x304D,
     0x307E, 0x3059, 0x3002]"

definition r_upl_a :: jsstring where
  "r_upl_a = [0x30A2, 0x30C3, 0x30D7, 0x30ED, 0x30FC, 0x30C9, 0x5B8C, 0x4E86, 0x3092, 0x53D7,
     0x3051, 0x4ED8, 0x3051, 0x307E, 0x3057, 0x305F, 0x3002] @ asc ''docId=''"

definition r_upl_b :: jsstring where
  "r_upl_b = [0xA, 0x73FE, 0x5728, 0x306E, 0x8A2D, 0x5B9A] @ asc '': questions=''"

definition r_upl_c :: jsstring where
  "r_upl_c = [0xA, 0x5FC5, 0x8981, 0x306B, 0x5FDC, 0x3058, 0x3066] @ asc '' '' @ [0x22]
     @ asc ''set: ...'' @ [0x22] @ asc '' '' @ [0x3067, 0x66F4, 0x65B0, 0x3057, 0x3001, 0x22]
     @ asc ''run'' @ [0x22] @ asc '' ''
     @ [0x3067, 0x751F, 0x6210, 0x3092, 0x958B, 0x59CB, 0x3057, 0x3066, 0x304F, 0x3060, 0x3055,
        0x3044, 0x3002]"

definition r_upl_prompt :: jsstring where
  "r_upl_prompt = [0x30A2, 0x30C3, 0x30D7, 0x30ED, 0x30FC, 0x30C9, 0x5B8C, 0x4E86, 0x5F8C, 0x306F,
     0x300C] @ asc ''uploaded: <docId>''
     @ [0x300D, 0x3068, 0x5165, 0x529B, 0x3057, 0x3066, 0x304F, 0x3060, 0x3055, 0x3044, 0x3002]"

definition r_back_wait :: jsstring where
  "r_back_wait = [0x30A2, 0x30C3, 0x30D7, 0x30ED, 0x30FC, 0x30C9, 0x5F85, 0x3061, 0x306B, 0x623B,
     0x308A, 0x307E, 0x3059, 0x3002]"

definition r_back_cfg :: jsstring where
  "r_back_cfg = [0x8A2D, 0x5B9A, 0x306B, 0x623B, 0x308A, 0x307E, 0x3059, 0x3002]"

subsection \<open>matchRuleIntent\<close>

text \<open>The result object \<open>{reply, newState, metaPatch}\<close>; a rule without a patch leaves
  \<open>metaPatch\<close> undefined. \<open>null\<close>, the result when no rule matches, is \<open>None\<close>.\<close>

record result =
  reply :: "frag list"
  newState :: jsstring
  metaPatch :: "jsobject option"

definition ROOT_MENU :: jsstring where
  "ROOT_MENU = asc ''ROOT_MENU''"
definition FLOW_EXISTING_DOC_SELECT :: jsstring where
  "FLOW_EXISTING_DOC_SELECT = asc ''FLOW_EXISTING_DOC_SELECT''"
definition FLOW_EXISTING_DOC_CONFIG :: jsstring where
  "FLOW_EXISTING_DOC_CONFIG = asc ''FLOW_EXISTING_DOC_CONFIG''"
definition FLOW_UPLOAD_DOC_WAIT :: jsstring where
  "FLOW_UPLOAD_DOC_WAIT = asc ''FLOW_UPLOAD_DOC_WAIT''"
definition FLOW_UPLOAD_DOC_CONFIG :: jsstring where
  "FLOW_UPLOAD_DOC_CONFIG = asc ''FLOW_UPLOAD_DOC_CONFIG''"
definition FLOW_QG_DONE :: jsstring where
  "FLOW_QG_DONE = asc ''FLOW_QG_DONE''"

text \<open>\<^verbatim>\<open>{ questions: 10, difficulty: "middle", type: "mcq" }\<close>\<close>

definition defaultConfig :: jsval where
  "defaultConfig = JObj [(asc ''questions'', JNum 10), (asc ''difficulty'', JStr (asc ''middle'')),
                         (asc ''type'', JStr (asc ''mcq''))]"

text \<open>The chunk \<^verbatim>\<open>questions=${c.questions}, difficulty=${c.difficulty}, type=${c.type}\<close>
  after the literal that ends in \<open>questions=\<close>.\<close>

definition configFrags :: "jsval \<Rightarrow> frag list" where
  "configFrags c = [Sub (getProp c (asc ''questions'')), Lit (asc '', difficulty=''),
                    Sub (getProp c (asc ''difficulty'')), Lit (asc '', type=''),
                    Sub (getProp c (asc ''type''))]"

text \<open>The configuration a set command builds from the parsed pairs and \<open>meta.config || {}\<close>.\<close>

definition mergeConfig :: "jsobject \<Rightarrow> jsobject \<Rightarrow> jsval" where
  "mergeConfig setCmd meta =
     (let prev = orElse (getProp (JObj meta) (asc ''config'')) (JObj [])
      in JObj [(asc ''questions'',
                  toNumber (nullish (getProp (JObj setCmd) (asc ''questions''))
                             (nullish (getProp prev (asc ''questions'')) (JNum 10)))),
               (asc ''difficulty'',
                  nullish (getProp (JObj setCmd) (asc ''difficulty''))
                    (nullish (getProp prev (asc ''difficulty'')) (JStr (asc ''middle'')))),
               (asc ''type'',
                  nullish (getProp (JObj setCmd) (asc ''type''))
                    (nullish (getProp prev (asc ''type'')) (JStr (asc ''mcq''))))])"

definition setReply :: "jsval \<Rightarrow> frag list" where
  "setReply config = Lit r_set_a # configFrags config @ [Lit r_set_c]"

definition runReply :: "jsobject \<Rightarrow> frag list" where
  "runReply meta =
     (let cfg = orElse (getProp (JObj meta) (asc ''config'')) defaultConfig
      in Lit r_run_a # Sub (getProp (JObj meta) (asc ''docId'')) # Lit (asc '', questions='')
           # configFrags cfg @ [Lit r_run_c])"

text \<open>
  \<open>matchRuleIntent js now text state meta\<close>. The text is a string (the caller has called its
  \<open>trim\<close>), so \<open>text || ""\<close> is the text. \<open>state\<close> is any value: the \<open>switch\<close> compares
  it with \<open>===\<close> to the five labelled cases, and the case \<open>ROOT_MENU\<close> shares its body
  with \<open>default\<close>. \<open>now\<close> is what \<open>new Date().toISOString()\<close> returns during the call.
\<close>

definition matchRuleIntent ::
    "builtins \<Rightarrow> jsstring \<Rightarrow> jsstring \<Rightarrow> jsval \<Rightarrow> jsobject \<Rightarrow> result option" where
  "matchRuleIntent js now text state meta =
    (let t = trim text;
         is11 = re_is11 t;
         is12 = re_is12 t;
         help = re_help t;
         back = re_back t;
         home = re_home t;
         selectDoc = re_selectDoc t;
         setCmd = (if re_set t then Some (parseKV js t) else None);
         run = re_run t
     in
     if state = JStr FLOW_EXISTING_DOC_SELECT then
       (if home then Some \<lparr>reply = [Lit r_home], newState = ROOT_MENU, metaPatch = None\<rparr>
        else if back then Some \<lparr>reply = [Lit r_back_one], newState = ROOT_MENU, metaPatch = None\<rparr>
        else case selectDoc of
          Some ds \<Rightarrow>
            (let docId = toNumber (JStr ds);
                 current = orElse (getProp (JObj meta) (asc ''config'')) defaultConfig
             in Some \<lparr>reply = Lit r_sel_a # Sub docId # Lit r_sel_b # configFrags current
                                @ [Lit r_sel_c],
                      newState = FLOW_EXISTING_DOC_CONFIG,
                      metaPatch = Some [(asc ''docId'', docId)]\<rparr>)
        | None \<Rightarrow> Some \<lparr>reply = [Lit r_sel_prompt], newState = FLOW_EXISTING_DOC_SELECT,
                         metaPatch = None\<rparr>)
     else if state = JStr FLOW_EXISTING_DOC_CONFIG then
       (if home then Some \<lparr>reply = [Lit r_home], newState = ROOT_MENU, metaPatch = None\<rparr>
        else if back then Some \<lparr>reply = [Lit r_back_select],
                                newState = FLOW_EXISTING_DOC_SELECT, metaPatch = None\<rparr>
        else case setCmd of
          Some kv \<Rightarrow>
            (let config = mergeConfig kv meta
             in Some \<lparr>reply = setReply config, newState = FLOW_EXISTING_DOC_CONFIG,
                      metaPatch = Some [(asc ''config'', config)]\<rparr>)
        | None \<Rightarrow>
            (if run then Some \<lparr>reply = runReply meta, newState = FLOW_QG_DONE,
                                metaPatch = Some [(asc ''lastRunAt'', JStr now)]\<rparr>
             else None))
     else if state = JStr FLOW_UPLOAD_DOC_WAIT then
       (if home then Some \<lparr>reply = [Lit r_home], newState = ROOT_MENU, metaPatch = None\<rparr>
        else if back then Some \<lparr>reply = [Lit r_home], newState = ROOT_MENU, metaPatch = None\<rparr>
        else case re_uploaded t of
          Some ds \<Rightarrow>
            (let docId = toNumber (JStr ds);
                 current = orElse (getProp (JObj meta) (asc ''config'')) defaultConfig
             in Some \<lparr>reply = Lit r_upl_a # Sub docId # Lit r_upl_b # configFrags current
                                @ [Lit r_upl_c],
                      newState = FLOW_UPLOAD_DOC_CONFIG,
                      metaPatch = Some [(asc ''docId'', docId)]\<rparr>)
        | None \<Rightarrow> Some \<lparr>reply = [Lit r_upl_prompt], newState = FLOW_UPLOAD_DOC_WAIT,
                         metaPatch = None\<rparr>)
     else if state = JStr FLOW_UPLOAD_DOC_CONFIG then
       (if home then Some \<lparr>reply = [Lit r_home], newState = ROOT_MENU, metaPatch = None\<rparr>
        else if back then Some \<lparr>reply = [Lit r_back_wait],
                                newState = FLOW_UPLOAD_DOC_WAIT, metaPatch = None\<rparr>
        else case setCmd of
          Some kv \<Rightarrow>
            (let config = mergeConfig kv meta
             in Some \<lparr>reply = setReply config, newState = FLOW_UPLOAD_DOC_CONFIG,
                      metaPatch = Some [(asc ''config'', config)]\<rparr>)
        | None \<Rightarrow>
            (if run then Some \<lparr>reply = runReply meta, newState = FLOW_QG_DONE,
                                metaPatch = Some [(asc ''lastRunAt'', JStr now)]\<rparr>
             else None))
     else if state = JStr FLOW_QG_DONE then
       (if home then Some \<lparr>reply = [Lit r_home], newState = ROOT_MENU, metaPatch = None\<rparr>
        else if back then
          Some \<lparr>reply = [Lit r_back_cfg],
                newState = (if getProp (JObj meta) (asc ''lastChoice'') = JStr (asc ''1-1'')
                            then FLOW_EXISTING_DOC_CONFIG else FLOW_UPLOAD_DOC_CONFIG),
                metaPatch = None\<rparr>
        else None)
     else
       (if is11 then Some \<lparr>reply = [Lit r_root11], newState = FLOW_EXISTING_DOC_SELECT,
                             metaPatch = Some [(asc ''lastChoice'', JStr (asc ''1-1''))]\<rparr>
        else if is12 then Some \<lparr>reply = [Lit r_root12], newState = FLOW_UPLOAD_DOC_WAIT,
                                  metaPatch = Some [(asc ''lastChoice'', JStr (asc ''1-2''))]\<rparr>
        else if help then Some \<lparr>reply = [Lit r_help], newState = ROOT_MENU, metaPatch = None\<rparr>
        else None))"


text \<open>The two commands of the configuration example.\<close>

definition t_set1 :: jsstring where
  "t_set1 = asc ''set: questions=20, difficulty=hard''"

definition t_set2 :: jsstring where
  "t_set2 = asc ''set: difficulty=easy''"

section \<open>The state store (db.js)\<close>

text \<open>
  A row of the table \<open>conversations\<close>, with the columns the state functions use. The column
  \<open>state\<close> has the type TEXT: it holds a string or NULL (\<open>None\<close>). The column \<open>meta\<close>
  holds a text that \<open>JSON.stringify\<close> wrote, kept as the value \<open>JSON.parse\<close> gives for
  it, or it is NULL (\<open>None\<close>).
\<close>

record convRow =
  c_user :: nat
  c_state :: "jsstring option"
  c_meta :: "jsval option"

type_synonym convTable = "int \<rightharpoonup> convRow"

text \<open>\<^verbatim>\<open>SELECT ... FROM conversations WHERE id = ? AND user_id = ?\<close>\<close>

definition selectConv :: "convTable \<Rightarrow> int \<Rightarrow> nat \<Rightarrow> convRow option" where
  "selectConv tbl conversationId user_id =
     (case tbl conversationId of
        Some row \<Rightarrow> (if c_user row = user_id then Some row else None)
      | None \<Rightarrow> None)"

text \<open>
  The result \<^verbatim>\<open>{ state: row.state || null, meta: row.meta ? safeJSON(row.meta) : null }\<close>
  of getConversationState, as a pair; the state is a string that is not empty, or null
  (\<open>None\<close>).
\<close>

definition getConversationState :: "convTable \<Rightarrow> nat \<Rightarrow> int \<Rightarrow> jsstring option \<times> jsval" where
  "getConversationState tbl user_id conversationId =
     (case selectConv tbl conversationId user_id of
        None \<Rightarrow> (None, JNull)
      | Some row \<Rightarrow> ((case c_state row of
                          Some t \<Rightarrow> (if t = [] then None else Some t)
                        | None \<Rightarrow> None),
                       (case c_meta row of Some v \<Rightarrow> v | None \<Rightarrow> JNull)))"

text \<open>
  \<open>JSON.parse(JSON.stringify(v))\<close>, what is read back from a column that \<open>v\<close> was
  written to. \<open>JSON.stringify\<close> writes NaN and the infinities as \<open>null\<close>, leaves out a
  property whose value is undefined and writes an undefined element of an array as
  \<open>null\<close>; every other value of this model is read back as it was. (The equation for
  \<open>JUndefined\<close> is the one for an element of an array; the program passes no undefined
  value to \<open>JSON.stringify\<close>.)
\<close>

fun jsonImage :: "builtins \<Rightarrow> jsval \<Rightarrow> jsval"
  and jsonProps :: "builtins \<Rightarrow> jsobject \<Rightarrow> jsobject"
  and jsonItems :: "builtins \<Rightarrow> jsval list \<Rightarrow> jsval list" where
  "jsonImage js JUndefined = JNull"
| "jsonImage js JNull = JNull"
| "jsonImage js (JBool b) = JBool b"
| "jsonImage js (JNum n) = JNum n"
| "jsonImage js JNaN = JNull"
| "jsonImage js (JNumberOf v) =
     (case numberOf js v of Finite i t \<Rightarrow> JNumberOf v | _ \<Rightarrow> JNull)"
| "jsonImage js (JStr t) = JStr t"
| "jsonImage js (JObj ps) = JObj (jsonProps js ps)"
| "jsonImage js (JArr xs) = JArr (jsonItems js xs)"
| "jsonProps js [] = []"
| "jsonProps js ((k, v) # ps) =
     (if v = JUndefined then jsonProps js ps else (k, jsonImage js v) # jsonProps js ps)"
| "jsonItems js [] = []"
| "jsonItems js (x # xs) = jsonImage js x # jsonItems js xs"

text \<open>The values that \<open>JSON.stringify\<close> and \<open>JSON.parse\<close> give back unchanged.\<close>

fun isJson :: "builtins \<Rightarrow> jsval \<Rightarrow> bool"
  and areJson :: "builtins \<Rightarrow> jsval list \<Rightarrow> bool" where
  "isJson js JUndefined = False"
| "isJson js JNull = True"
| "isJson js (JBool b) = True"
| "isJson js (JNum n) = True"
| "isJson js JNaN = False"
| "isJson js (JNumberOf v) = (case numberOf js v of Finite i t \<Rightarrow> True | _ \<Rightarrow> False)"
| "isJson js (JStr t) = True"
| "isJson js (JObj ps) = areJson js (map snd ps)"
| "isJson js (JArr xs) = areJson js xs"
| "areJson js [] = True"
| "areJson js (x # xs) = (isJson js x \<and> areJson js xs)"

text \<open>
  setConversationState returns false for a missing row; otherwise it runs
  \<^verbatim>\<open>UPDATE conversations SET state = ?, meta = COALESCE(?, meta) WHERE id = ?\<close> with
  \<^verbatim>\<open>meta ? JSON.stringify(meta) : null\<close> for the second parameter. The callers pass a
  string or null for the state.
\<close>

definition setConversationState ::
    "builtins \<Rightarrow> convTable \<Rightarrow> nat \<Rightarrow> int \<Rightarrow> jsstring option \<Rightarrow> jsval \<Rightarrow> bool \<times> convTable" where
  "setConversationState js tbl user_id conversationId state meta =
     (case selectConv tbl conversationId user_id of
        None \<Rightarrow> (False, tbl)
      | Some ok \<Rightarrow>
          (let metaStr = (if truthy meta then Some (jsonImage js meta) else None)
           in (True, tbl(conversationId \<mapsto>
                 ok\<lparr>c_state := state,
                    c_meta := (case metaStr of Some m \<Rightarrow> Some m | None \<Rightarrow> c_meta ok)\<rparr>))))"

text \<open>
  The own enumerable properties an object spread \<open>{...v}\<close> copies: those of an object,
  the elements of an array and the code units of a string under their indices, none of
  another primitive value.
\<close>

fun objProps :: "jsval \<Rightarrow> jsobject" where
  "objProps (JObj ps) = ps"
| "objProps (JArr xs) = zip (map (\<lambda>i. decNat i) [0..<length xs]) xs"
| "objProps (JStr t) = zip (map (\<lambda>i. decNat i) [0..<length t]) (map (\<lambda>c. JStr [c]) t)"
| "objProps _ = []"

section \<open>The job orchestrator and progress polling (server.js)\<close>

subsection \<open>Progress records and files\<close>

text \<open>
  The content of a file of the progress directory: a text \<open>JSON.parse\<close> accepts, kept as
  the value it parses to (what \<open>JSON.stringify\<close> wrote for a record parses to that
  record), a text it rejects, or something \<open>readFileSync\<close> cannot read.
\<close>

datatype content = Json jsval | Malformed | Unreadable

text \<open>\<^verbatim>\<open>{ stage: ..., message: ... }\<close>\<close>

definition progressRecord :: "jsstring \<Rightarrow> jsstring \<Rightarrow> jsval" where
  "progressRecord stage message = JObj [(asc ''stage'', JStr stage), (asc ''message'', JStr message)]"

definition m_analysis :: jsstring where
  "m_analysis = [0x5185, 0x5BB9, 0x5206, 0x6790, 0x51E6, 0x7406] @ asc '': OCR''
                 @ [0x3092, 0x958B, 0x59CB]"

definition m_qa :: jsstring where
  "m_qa = [0x554F, 0x984C, 0x751F, 0x6210] @ asc '': '' @ [0x958B, 0x59CB]"

definition m_done :: jsstring where
  "m_done = [0x5B8C, 0x4E86]"

text \<open>
  progressFile: the path of the record of a job in the progress directory. The directory is
  written as a relative prefix, and the normalisation of \<open>.\<close> and \<open>..\<close> segments by
  \<open>path.join\<close> is not modelled; a job identifier of the orchestrator is sixteen
  hexadecimal digits.
\<close>

definition progressFile :: "jsstring \<Rightarrow> jsstring" where
  "progressFile jobId = asc ''progress/'' @ jobId @ asc ''.json''"

text \<open>The exit code of a child process: a number, or null (\<open>None\<close>) after a signal.\<close>

definition codeStr :: "int option \<Rightarrow> jsstring" where
  "codeStr code = (case code of Some c \<Rightarrow> decStr c | None \<Rightarrow> asc ''null'')"

subsection \<open>State of the server\<close>

text \<open>A row of the table \<open>documents\<close>.\<close>

record docRow =
  d_id :: int
  d_user :: nat
  d_title :: jsstring
  d_stored_filename :: jsstring
  d_original_name :: jsstring

text \<open>\<^verbatim>\<open>SELECT ... FROM documents WHERE user_id = ? ORDER BY id DESC LIMIT ?\<close>\<close>

definition listDocuments :: "docRow list \<Rightarrow> nat \<Rightarrow> nat \<Rightarrow> docRow list" where
  "listDocuments docs user_id limit =
     take limit (rev (sort_key d_id (filter (\<lambda>d. d_user d = user_id) docs)))"

datatype stage = Worker | MakeQA

text \<open>What the orchestrator does, in the order it does it: a write of a progress record for
  a job, and the launch of a stage process for a job.\<close>

datatype action = Wrote jsstring jsval | Spawned stage jsstring

text \<open>
  The tables, the progress directory, the registry \<open>convJobMap\<close>, the child processes
  that are alive with their handlers attached (by the job identifier their handlers
  closed over), the identifiers drawn so far, and the history of the orchestrator's
  actions.
\<close>

record sys =
  conversations :: convTable
  documents :: "docRow list"
  files :: "jsstring \<rightharpoonup> content"
  convJobMap :: "jsstring \<rightharpoonup> jsstring"
  workers :: "jsstring list"
  qas :: "jsstring list"
  drawn :: "jsstring list"
  history :: "action list"

text \<open>\<^verbatim>\<open>fs.writeFileSync(progPath, JSON.stringify(record))\<close> by the orchestrator.\<close>

definition writeProgress :: "jsstring \<Rightarrow> jsval \<Rightarrow> sys \<Rightarrow> sys" where
  "writeProgress jobId record s =
     s\<lparr>files := (files s)(progressFile jobId \<mapsto> Json record),
       history := history s @ [Wrote jobId record]\<rparr>"


subsection \<open>Starting a job\<close>

text \<open>
  What a handler answers besides its normal result: an HTTP error status, or \<open>Thrown\<close>
  when a statement of the handler throws, which ends the handler there: no later statement
  of it runs. (The handler is an \<open>async\<close> function without \<open>try\<close>; what becomes of the
  exception is left to the version of Express, which the repository does not fix.)
\<close>

datatype failure = HttpError nat | Thrown

text \<open>
  The tail of the handler of \<^verbatim>\<open>POST /api/process/start\<close>, from the job identifier on, in
  the order of the source. It writes the first record and records the job under
  \<^verbatim>\<open>`${req.user.id}:${conversationId}`\<close> (the conversation identifier as the request gave
  it). Then it builds the argument vector of the worker, in which
  \<^verbatim>\<open>path.join(UPLOAD_DIR, stored)\<close> throws a TypeError unless \<open>stored\<close> is a string, and
  calls \<open>spawn\<close>, which returns a child process or throws (\<open>spawnThrows\<close>; it does for an
  argument it rejects or when the system refuses the process). Only then are the handlers
  of the events \<open>error\<close> and \<open>exit\<close> attached: the child is alive with its handlers. A
  launch that fails after \<open>spawn\<close> has returned is reported by the event \<open>error\<close>. The
  other arguments of the child are not part of this model.
\<close>

definition launchJob ::
    "builtins \<Rightarrow> bool \<Rightarrow> nat \<Rightarrow> jsval \<Rightarrow> jsval \<Rightarrow> jsstring \<Rightarrow> sys \<Rightarrow> (failure + jsstring) \<times> sys" where
  "launchJob js spawnThrows user_id conversationId stored jobId s =
     (let s1 = writeProgress jobId (progressRecord (asc ''analysis'') m_analysis)
                 (s\<lparr>drawn := jobId # drawn s\<rparr>);
          s2 = s1\<lparr>convJobMap := (convJobMap s1)
                  (decStr (int user_id) @ asc '':'' @ strOf js conversationId \<mapsto> jobId)\<rparr>
      in case stored of
           JStr name \<Rightarrow>
             (if spawnThrows then (Inl Thrown, s2)
              else (Inr jobId, s2\<lparr>workers := jobId # workers s2,
                                  history := history s2 @ [Spawned Worker jobId]\<rparr>))
         | _ \<Rightarrow> (Inl Thrown, s2))"

text \<open>
  The handler of \<^verbatim>\<open>POST /api/process/start\<close> for the user \<open>req.user.id\<close>, the
  \<open>conversationId\<close> of the request body and the identifier \<open>crypto.randomBytes\<close> gives.
  The conversation is looked up under \<open>Number(conversationId)\<close>; a number that is not an
  integer matches no row. The stored file is \<open>meta.stored_filename\<close> or, when that is
  falsy, that of the user's latest document, which is then written back to the
  conversation.
\<close>

definition processStart ::
    "builtins \<Rightarrow> bool \<Rightarrow> nat \<Rightarrow> jsval \<Rightarrow> jsstring \<Rightarrow> sys \<Rightarrow> (failure + jsstring) \<times> sys" where
  "processStart js spawnThrows user_id conversationId jobId s =
     (case numberDesc js conversationId of
        Throws \<Rightarrow> (Inl Thrown, s)
      | NotFinite t \<Rightarrow> (Inl (HttpError 404), s)
      | Finite None t \<Rightarrow> (Inl (HttpError 404), s)
      | Finite (Some convNum) t \<Rightarrow>
          (case selectConv (conversations s) convNum user_id of
             None \<Rightarrow> (Inl (HttpError 404), s)
           | Some conv \<Rightarrow>
               (let (state, stMeta) = getConversationState (conversations s) user_id convNum;
                    meta = orElse stMeta (JObj []);
                    stored = getProp meta (asc ''stored_filename'')
                in if truthy stored
                   then launchJob js spawnThrows user_id conversationId stored jobId s
                   else (case listDocuments (documents s) user_id 1 of
                           [] \<Rightarrow> (Inl (HttpError 400), s)
                         | latest # _ \<Rightarrow>
                             (let stored' = JStr (d_stored_filename latest);
                                  videoName = orElse (JStr (d_original_name latest))
                                                (orElse (JStr (d_title latest)) stored');
                                  tbl = snd (setConversationState js (conversations s) user_id
                                               convNum state
                                               (JObj (spread (objProps meta)
                                                  [(asc ''stored_filename'', stored'),
                                                   (asc ''docTitle'', videoName)])))
                              in launchJob js spawnThrows user_id conversationId stored' jobId
                                   (s\<lparr>conversations := tbl\<rparr>))))))"

subsection \<open>The handlers of the child processes\<close>

text \<open>\<^verbatim>\<open>w1.on("error", e => ...)\<close>, with \<open>e\<close> the string \<open>String(e)\<close>.\<close>

definition onWorkerError :: "jsstring \<Rightarrow> jsstring \<Rightarrow> sys \<Rightarrow> sys" where
  "onWorkerError jobId e s = writeProgress jobId (progressRecord (asc ''error'') e) s"

text \<open>\<^verbatim>\<open>w1.on("exit", code => ...)\<close>: on code 0 write the record and launch makeQA.\<close>

definition onWorkerExit :: "jsstring \<Rightarrow> int option \<Rightarrow> sys \<Rightarrow> sys" where
  "onWorkerExit jobId code s =
     (if code \<noteq> Some 0 then
        writeProgress jobId (progressRecord (asc ''error'') (asc ''worker exit '' @ codeStr code)) s
      else
        (let s1 = writeProgress jobId (progressRecord (asc ''qa'') m_qa) s
         in s1\<lparr>qas := jobId # qas s1, history := history s1 @ [Spawned MakeQA jobId]\<rparr>))"

text \<open>The same handler on code 0 when \<open>spawn\<close> throws: the record is written, the
  exception leaves the handler, and makeQA is not launched.\<close>

definition onWorkerExitThrow :: "jsstring \<Rightarrow> sys \<Rightarrow> sys" where
  "onWorkerExitThrow jobId s = writeProgress jobId (progressRecord (asc ''qa'') m_qa) s"

definition onQaError :: "jsstring \<Rightarrow> jsstring \<Rightarrow> sys \<Rightarrow> sys" where
  "onQaError jobId e s = writeProgress jobId (progressRecord (asc ''error'') e) s"

definition onQaExit :: "jsstring \<Rightarrow> int option \<Rightarrow> sys \<Rightarrow> sys" where
  "onQaExit jobId c2 s =
     writeProgress jobId
       (if c2 = Some 0 then progressRecord (asc ''done'') m_done
        else progressRecord (asc ''error'') (asc ''qa exit '' @ codeStr c2)) s"

subsection \<open>Events\<close>

text \<open>
  The server reacts to requests and to the events of the child processes. \<open>Start\<close> is a
  request to start a job during which \<open>spawn\<close> returns, \<open>StartSpawnThrows\<close> one during
  which \<open>spawn\<close> throws, if the handler comes to call it. A child that could not be
  launched emits \<open>error\<close> and no \<open>exit\<close>; a child that ran emits \<open>exit\<close> with its code;
  either way it is gone afterwards. \<open>WorkerExitSpawnThrows\<close> is the exit of a worker with
  code 0 during whose handler \<open>spawn\<close> throws. While a stage process is alive it may
  overwrite the progress file it was given. An identifier that \<open>crypto.randomBytes\<close>
  has given before is not given again.

  An exception that leaves a handler may end the server process, and then no further event
  is handled. The model lets every run go on: the runs of the server are among the runs of
  the model.
\<close>

datatype event =
    Start nat jsval jsstring
  | StartSpawnThrows nat jsval jsstring
  | WorkerError jsstring jsstring
  | WorkerExit jsstring "int option"
  | WorkerExitSpawnThrows jsstring
  | QaError jsstring jsstring
  | QaExit jsstring "int option"
  | StageWrite jsstring content

fun step :: "builtins \<Rightarrow> event \<Rightarrow> sys \<Rightarrow> sys option" where
  "step js (Start user_id conversationId jobId) s =
     (if jobId \<in> set (drawn s) then None
      else Some (snd (processStart js False user_id conversationId jobId s)))"
| "step js (StartSpawnThrows user_id conversationId jobId) s =
     (if jobId \<in> set (drawn s) then None
      else Some (snd (processStart js True user_id conversationId jobId s)))"
| "step js (WorkerError jobId e) s =
     (if jobId \<in> set (workers s)
      then Some (onWorkerError jobId e (s\<lparr>workers := removeAll jobId (workers s)\<rparr>)) else None)"
| "step js (WorkerExit jobId code) s =
     (if jobId \<in> set (workers s)
      then Some (onWorkerExit jobId code (s\<lparr>workers := removeAll jobId (workers s)\<rparr>)) else None)"
| "step js (WorkerExitSpawnThrows jobId) s =
     (if jobId \<in> set (workers s)
      then Some (onWorkerExitThrow jobId (s\<lparr>workers := removeAll jobId (workers s)\<rparr>)) else None)"
| "step js (QaError jobId e) s =
     (if jobId \<in> set (qas s)
      then Some (onQaError jobId e (s\<lparr>qas := removeAll jobId (qas s)\<rparr>)) else None)"
| "step js (QaExit jobId c2) s =
     (if jobId \<in> set (qas s)
      then Some (onQaExit jobId c2 (s\<lparr>qas := removeAll jobId (qas s)\<rparr>)) else None)"
| "step js (StageWrite jobId c) s =
     (if jobId \<in> set (workers s) \<or> jobId \<in> set (qas s)
      then Some (s\<lparr>files := (files s)(progressFile jobId \<mapsto> c)\<rparr>) else None)"

fun run :: "builtins \<Rightarrow> event list \<Rightarrow> sys \<Rightarrow> sys option" where
  "run js [] s = Some s"
| "run js (e # es) s = (case step js e s of None \<Rightarrow> None | Some s' \<Rightarrow> run js es s')"

text \<open>The server after its start: no job yet, any tables, anything in the progress directory.\<close>

definition fresh :: "sys \<Rightarrow> bool" where
  "fresh s = (workers s = [] \<and> qas s = [] \<and> drawn s = [] \<and> history s = []
              \<and> convJobMap s = Map.empty)"

subsection \<open>Progress polling\<close>

definition unknownRecord :: jsval where
  "unknownRecord = progressRecord (asc ''unknown'') []"

text \<open>
  The read of the record of a job: without the file the handler answers the unknown
  record, and so does its \<open>catch\<close> when \<open>readFileSync\<close> or \<open>JSON.parse\<close> throws.
\<close>

definition readProgress :: "sys \<Rightarrow> jsstring \<Rightarrow> jsval" where
  "readProgress s jobId =
     (case files s (progressFile jobId) of
        None \<Rightarrow> unknownRecord
      | Some Malformed \<Rightarrow> unknownRecord
      | Some Unreadable \<Rightarrow> unknownRecord
      | Some (Json j) \<Rightarrow> j)"

text \<open>A query parameter is a string or absent; it is truthy when present and not empty.\<close>

definition given :: "jsstring option \<Rightarrow> bool" where
  "given q = (case q of Some x \<Rightarrow> x \<noteq> [] | None \<Rightarrow> False)"

text \<open>The key \<^verbatim>\<open>`${req.user.id}:${Number(conversationId)}`\<close> of the progress handler.\<close>

definition pollKey :: "builtins \<Rightarrow> nat \<Rightarrow> jsstring \<Rightarrow> jsstring" where
  "pollKey js user_id conversationId =
     decStr (int user_id) @ asc '':'' @ numText (numberDesc js (JStr conversationId))"

text \<open>
  The handler of \<^verbatim>\<open>GET /api/process/progress\<close> (getProgress) for the query parameters
  \<open>jobId\<close> and \<open>conversationId\<close>: without a job identifier the registry is asked under
  the key of the conversation. Every path of the handler answers with a record.
\<close>

definition getProgress :: "builtins \<Rightarrow> sys \<Rightarrow> nat \<Rightarrow> jsstring option \<Rightarrow> jsstring option \<Rightarrow> jsval" where
  "getProgress js s user_id qJobId conversationId =
     (let jobId =
            (if given qJobId then qJobId
             else (case conversationId of
                     None \<Rightarrow> qJobId
                   | Some c \<Rightarrow>
                       (if c = [] then qJobId else convJobMap s (pollKey js user_id c))))
      in case jobId of
           None \<Rightarrow> unknownRecord
         | Some j \<Rightarrow> (if j = [] then unknownRecord else readProgress s j))"

subsection \<open>Reading the history\<close>

definition initialRecord :: jsval where
  "initialRecord = progressRecord (asc ''analysis'') m_analysis"

definition qaRecord :: jsval where
  "qaRecord = progressRecord (asc ''qa'') m_qa"

definition stageOf :: "jsval \<Rightarrow> jsval" where
  "stageOf r = getProp r (asc ''stage'')"

fun jobOf :: "action \<Rightarrow> jsstring" where
  "jobOf (Wrote j r) = j"
| "jobOf (Spawned st j) = j"

text \<open>The first record the orchestrator wrote for a job.\<close>

fun firstWrite :: "jsstring \<Rightarrow> action list \<Rightarrow> jsval option" where
  "firstWrite j [] = None"
| "firstWrite j (Wrote j' r # h) = (if j' = j then Some r else firstWrite j h)"
| "firstWrite j (Spawned st j' # h) = firstWrite j h"

text \<open>Every launch of makeQA comes directly after the write of the record \<open>qa\<close> of its job;
  \<open>prev\<close> is the action before the list.\<close>

fun launchAfterRecord :: "action option \<Rightarrow> action list \<Rightarrow> bool" where
  "launchAfterRecord prev [] = True"
| "launchAfterRecord prev (a # h) =
     ((case a of Spawned MakeQA j \<Rightarrow> prev = Some (Wrote j qaRecord) | _ \<Rightarrow> True)
      \<and> launchAfterRecord (Some a) h)"

subsection \<open>The outcomes of a start request\<close>

text \<open>
  A start request leaves the orchestrator as it was (the request is refused, or a
  conversion throws), or it registers the job: it draws the identifier, writes the first
  record and sets the registry entry of the key. After that the worker is launched, or the
  handler has thrown.
\<close>

definition quiet :: "sys \<Rightarrow> sys \<Rightarrow> bool" where
  "quiet s s' =
     (history s' = history s \<and> workers s' = workers s \<and> qas s' = qas s \<and> drawn s' = drawn s
      \<and> files s' = files s \<and> convJobMap s' = convJobMap s)"

definition registered :: "jsstring \<Rightarrow> jsstring \<Rightarrow> sys \<Rightarrow> sys \<Rightarrow> bool" where
  "registered key j s s' =
     (j \<notin> set (drawn s) \<and> qas s' = qas s \<and> drawn s' = j # drawn s
      \<and> files s' = (files s)(progressFile j \<mapsto> Json initialRecord)
      \<and> convJobMap s' = (convJobMap s)(key \<mapsto> j))"

definition launched :: "jsstring \<Rightarrow> jsstring \<Rightarrow> sys \<Rightarrow> sys \<Rightarrow> bool" where
  "launched key j s s' =
     (registered key j s s' \<and> workers s' = j # workers s
      \<and> history s' = history s @ [Wrote j initialRecord, Spawned Worker j])"

definition thrown :: "jsstring \<Rightarrow> jsstring \<Rightarrow> sys \<Rightarrow> sys \<Rightarrow> bool" where
  "thrown key j s s' =
     (registered key j s s' \<and> workers s' = workers s
      \<and> history s' = history s @ [Wrote j initialRecord])"

subsection \<open>An example server\<close>

text \<open>User 7 owns conversation 5, whose metadata names an uploaded file.\<close>

definition exampleMeta :: jsobject where
  "exampleMeta = [(asc ''stored_filename'', JStr (asc ''7_1700000000000_lecture.mp4'')),
                  (asc ''docTitle'', JStr (asc ''lecture.mp4''))]"

definition exampleServer :: sys where
  "exampleServer =
     \<lparr>conversations =
        [5 \<mapsto> \<lparr>c_user = 7, c_state = Some ROOT_MENU, c_meta = Some (JObj exampleMeta)\<rparr>],
      documents = [], files = Map.empty, convJobMap = Map.empty,
      workers = [], qas = [], drawn = [], history = []\<rparr>"

text \<open>
  The same server after \<^verbatim>\<open>POST /api/scenario\<close> with the patch \<open>{stored_filename: 5}\<close>
  for conversation 5: the stored file name is a number.
\<close>

definition numberNameServer :: sys where
  "numberNameServer =
     exampleServer\<lparr>conversations :=
        [5 \<mapsto> \<lparr>c_user = 7, c_state = Some ROOT_MENU,
                 c_meta = Some (JObj [(asc ''stored_filename'', JNum 5),
                                      (asc ''docTitle'', JStr (asc ''lecture.mp4''))])\<rparr>]\<rparr>"

text \<open>
  Built-ins for the examples. The examples convert strings of digits and the string
  \<open>abc\<close>, for which \<open>Number\<close> yields NaN, and lower-case ASCII; what is chosen here for
  the other arguments plays no role.
\<close>

definition exampleBuiltins :: builtins where
  "exampleBuiltins =
     \<lparr>unicodeLower = (\<lambda>s. s), numberOf = (\<lambda>v. NotFinite (asc ''NaN'')),
      stringOf = (\<lambda>v. asc ''[object Object]'')\<rparr>"

definition job1 :: jsstring where
  "job1 = asc ''00112233445566aa''"

definition job2 :: jsstring where
  "job2 = asc ''00112233445566bb''"

subsection \<open>Invariants of the orchestrator\<close>

text \<open>The stages of the records the orchestrator writes.\<close>

definition orchestratorStages :: "jsval set" where
  "orchestratorStages = {JStr (asc ''analysis''), JStr (asc ''qa''), JStr (asc ''done''), JStr (asc ''error'')}"

text \<open>
  While the worker of a job is alive, makeQA has not been launched for the job and the only
  record written for it is the first one.
\<close>

definition chainInv :: "sys \<Rightarrow> bool" where
  "chainInv s =
     (set (workers s) \<subseteq> set (drawn s) \<and> set (qas s) \<subseteq> set (drawn s)
      \<and> (\<forall>a\<in>set (history s). jobOf a \<in> set (drawn s))
      \<and> (\<forall>j\<in>set (workers s). j \<notin> set (qas s) \<and> Spawned MakeQA j \<notin> set (history s)
            \<and> (\<forall>r. Wrote j r \<in> set (history s) \<longrightarrow> r = initialRecord)))"

text \<open>
  The history mentions drawn identifiers only, every record has one of the four stages,
  the first record of every job is the initial one, and every launch of makeQA follows the
  record \<open>qa\<close> of its job.
\<close>

definition ledgerInv :: "sys \<Rightarrow> bool" where
  "ledgerInv s =
     (set (workers s) \<subseteq> set (drawn s) \<and> set (qas s) \<subseteq> set (drawn s)
      \<and> (\<forall>a\<in>set (history s). jobOf a \<in> set (drawn s))
      \<and> (\<forall>j r. Wrote j r \<in> set (history s) \<longrightarrow> stageOf r \<in> orchestratorStages)
      \<and> (\<forall>j\<in>set (drawn s). firstWrite j (history s) = Some initialRecord)
      \<and> launchAfterRecord None (history s))"

text \<open>
  A job whose worker has ended abnormally, with the record \<open>r\<close> in its progress file: no
  process of the job is alive, makeQA was never launched for it, and no record of the stage
  \<open>qa\<close> (nor of a stage \<open>generation\<close>) was written for it.
\<close>

definition failedJob :: "jsstring \<Rightarrow> jsval \<Rightarrow> sys \<Rightarrow> bool" where
  "failedJob j r s =
     (j \<in> set (drawn s) \<and> j \<notin> set (workers s) \<and> j \<notin> set (qas s)
      \<and> Spawned MakeQA j \<notin> set (history s)
      \<and> (\<forall>r'. Wrote j r' \<in> set (history s) \<longrightarrow> stageOf r' \<noteq> JStr (asc ''qa'') \<and> stageOf r' \<noteq> JStr (asc ''generation''))
      \<and> files s (progressFile j) = Some (Json r))"

text \<open>
  A job whose launch has thrown, stranded: its identifier was drawn, no process of it is
  alive, the orchestrator has written its first record and nothing else, and that record is
  in its progress file.
\<close>

definition strandedJob :: "jsstring \<Rightarrow> sys \<Rightarrow> bool" where
  "strandedJob j s =
     (j \<in> set (drawn s) \<and> j \<notin> set (workers s) \<and> j \<notin> set (qas s)
      \<and> (\<forall>a\<in>set (history s). jobOf a = j \<longrightarrow> a = Wrote j initialRecord)
      \<and> files s (progressFile j) = Some (Json initialRecord))"

section \<open>Properties of the dialog engine\<close>

subsection \<open>Evaluation and auxiliary facts\<close>

lemmas rx_simps = matches_def mLit_def mOpt_def mPlus_def dotStar_def mAlt_def mWordEnd_def
  mEnd_def mDone_def mDigits_def

lemmas class_simps = isSpace_def isDigit_def isWord_def isLineTerm_def isDash_def isSep_def
  canon_def lowerUnit_def toLowerCase_def asc_def

lemmas word_simps = w_kizon_def w_shiryo_def w_mondai_def w_sakusei_def w_shinki_def w_upload_def
  w_herupu_def w_tsukaikata_def w_modoru_def w_menyu_def w_jikkou_def

lemmas eval_simps = trim_def re_home_def re_back_def re_run_def re_set_def re_is11_def re_is12_def
  re_help_def re_selectDoc_def re_uploaded_def parseKV_def stripSet_def addPair_def assign_def
  rx_simps class_simps word_simps

lemmas state_defs = ROOT_MENU_def FLOW_EXISTING_DOC_SELECT_def FLOW_EXISTING_DOC_CONFIG_def
  FLOW_UPLOAD_DOC_WAIT_def FLOW_UPLOAD_DOC_CONFIG_def FLOW_QG_DONE_def

lemma state_names_distinct:
  "distinct [ROOT_MENU, FLOW_EXISTING_DOC_SELECT, FLOW_EXISTING_DOC_CONFIG,
             FLOW_UPLOAD_DOC_WAIT, FLOW_UPLOAD_DOC_CONFIG, FLOW_QG_DONE]"
  by (simp add: state_defs asc_def)

lemma ciPrefix_full: "ciPrefix p s = Some [] \<longleftrightarrow> map canon s = map canon p"
  by (induction p s rule: ciPrefix.induct) auto

lemma matches_mAlt: "matches (mAlt f g s) \<longleftrightarrow> matches (f s) \<or> matches (g s)"
  by (auto simp: matches_def mAlt_def split: option.splits)

lemma matches_mLit_mEnd: "matches (mLit p mEnd s) \<longleftrightarrow> map canon s = map canon p"
proof -
  have "matches (mLit p mEnd s) \<longleftrightarrow> ciPrefix p s = Some []"
    by (auto simp: matches_def mLit_def mEnd_def split: option.splits if_splits)
  then show ?thesis by (simp add: ciPrefix_full)
qed

text \<open>The three anchored commands are the texts that equal one of their two words up to
  the case of ASCII letters.\<close>

lemma re_back_iff:
  "re_back t \<longleftrightarrow> map canon t = map canon w_modoru \<or> map canon t = map canon (asc ''back'')"
  by (simp add: re_back_def matches_mAlt matches_mLit_mEnd)

lemma re_home_iff:
  "re_home t \<longleftrightarrow> map canon t = map canon (asc ''home'') \<or> map canon t = map canon w_menyu"
  by (simp add: re_home_def matches_mAlt matches_mLit_mEnd)

lemma re_run_iff:
  "re_run t \<longleftrightarrow> map canon t = map canon (asc ''run'') \<or> map canon t = map canon w_jikkou"
  by (simp add: re_run_def matches_mAlt matches_mLit_mEnd)

lemma back_not_home: "re_back t \<Longrightarrow> \<not> re_home t"
  by (auto simp: re_back_iff re_home_iff asc_def canon_def w_modoru_def w_menyu_def)

lemma run_not_home: "re_run t \<Longrightarrow> \<not> re_home t"
  by (auto simp: re_run_iff re_home_iff asc_def canon_def w_jikkou_def w_menyu_def)

lemma run_not_back: "re_run t \<Longrightarrow> \<not> re_back t"
  by (auto simp: re_run_iff re_back_iff asc_def canon_def w_jikkou_def w_modoru_def)

lemma run_not_set: "re_run t \<Longrightarrow> \<not> re_set t"
  by (auto simp: re_run_iff re_set_def rx_simps asc_def canon_def w_jikkou_def
           split: option.splits if_splits)

lemma map_of_setProp: "map_of (setProp k v ps) = (map_of ps)(k \<mapsto> v)"
  by (induction ps) auto

lemma map_of_spread: "map_of (spread a b) = map_of a ++ map_of (rev b)"
proof (induction b arbitrary: a)
  case Nil
  then show ?case by (simp add: spread_def)
next
  case (Cons p b)
  obtain k v where p: "p = (k, v)" by (cases p)
  have "map_of (spread a (p # b)) = map_of (spread (setProp k v a) b)"
    by (simp add: spread_def p)
  also have "\<dots> = map_of (setProp k v a) ++ map_of (rev b)"
    by (rule Cons.IH)
  also have "\<dots> = (map_of a ++ [k \<mapsto> v]) ++ map_of (rev b)"
    by (simp only: map_of_setProp map_add_upd map_add_empty)
  also have "\<dots> = map_of a ++ map_of (rev (p # b))"
    by (simp add: p)
  finally show ?case .
qed

lemma dropWhile_none: "\<forall>c\<in>set x. \<not> P c \<Longrightarrow> dropWhile P x = x"
  by (cases x) auto

lemma trim_id: "\<forall>c\<in>set x. \<not> isSpace c \<Longrightarrow> trim x = x"
  by (simp add: trim_def dropWhile_none)

lemma splitOn_piece: "d \<notin> set k \<Longrightarrow> splitOn d (k @ d # ys) = k # splitOn d ys"
  by (induction k) auto

lemma ciPrefix_append: "map canon x = map canon p \<Longrightarrow> ciPrefix p (x @ r) = Some r"
proof (induction p arbitrary: x)
  case Nil
  then show ?case by simp
next
  case (Cons a p)
  then obtain c cs where "x = c # cs" by (cases x) auto
  with Cons show ?case by simp
qed

lemma mStar_run:
  assumes "\<forall>c\<in>set ws. P c" and "r = [] \<or> \<not> P (hd r)" and "k r = Some y"
  shows "mStar P k (ws @ r) = Some y"
  using assms(1)
proof (induction ws)
  case Nil
  then show ?case using assms(2,3) by (cases r) auto
next
  case (Cons c ws)
  then show ?case by simp
qed

lemma mStar_Some: "mStar P Some x = Some (dropWhile P x)"
  by (induction x) auto

text \<open>The prefix \<^verbatim>\<open>/^set\s*:\s*/i\<close> is removed with the white space after the colon.\<close>

lemma stripSet_prefix:
  assumes "map canon pre = map canon (asc ''set'')" and "\<forall>c\<in>set ws. isSpace c"
  shows "stripSet (pre @ ws @ [0x3A] @ body) = dropWhile isSpace body"
proof -
  have colon: "\<not> isSpace 0x3A" by (simp add: isSpace_def)
  have "mLit (asc '':'') (mStar isSpace Some) (0x3A # body) = Some (dropWhile isSpace body)"
    by (simp add: mLit_def asc_def mStar_Some)
  then have "mStar isSpace (mLit (asc '':'') (mStar isSpace Some)) (ws @ 0x3A # body)
               = Some (dropWhile isSpace body)"
    using assms(2) colon by (intro mStar_run) simp_all
  then show ?thesis
    using ciPrefix_append [OF assms(1), of "ws @ [0x3A] @ body"]
    by (simp add: stripSet_def mLit_def)
qed

text \<open>
  The pieces of \<^verbatim>\<open>split(/[,\s]+/)\<close> that are not empty are the maximal runs of characters
  other than separators.
\<close>

lemma splitSep_not_Nil: "splitSep x \<noteq> []"
  by (induction x rule: splitSep.induct) (auto split: list.splits)

lemma splitSep_sepfree: "\<forall>p\<in>set (splitSep x). \<forall>c\<in>set p. \<not> isSep c"
proof (induction x rule: splitSep.induct)
  case 1
  show ?case by simp
next
  case (2 c cs)
  show ?case
  proof (cases "isSep c")
    case True
    then show ?thesis using 2(1) by simp
  next
    case False
    obtain p ps where s: "splitSep cs = p # ps"
      using splitSep_not_Nil [of cs] by (cases "splitSep cs") auto
    have "\<forall>q\<in>set (p # ps). \<forall>d\<in>set q. \<not> isSep d"
      using 2(2) [OF False] by (simp only: s)
    then show ?thesis using False by (simp add: s)
  qed
qed

lemma pieces_dropWhile:
  "filter (\<lambda>s. s \<noteq> []) (splitSep (dropWhile isSep x)) = filter (\<lambda>s. s \<noteq> []) (splitSep x)"
  by (cases x) auto

lemma pieces_sep:
  "isSep c \<Longrightarrow> filter (\<lambda>s. s \<noteq> []) (splitSep (c # x)) = filter (\<lambda>s. s \<noteq> []) (splitSep x)"
  by (simp add: pieces_dropWhile)

lemma pieces_gap:
  "\<forall>c\<in>set g. isSep c \<Longrightarrow>
   filter (\<lambda>s. s \<noteq> []) (splitSep (g @ x)) = filter (\<lambda>s. s \<noteq> []) (splitSep x)"
  by (induction g) (simp_all add: pieces_sep del: splitSep.simps)

lemma pieces_space:
  "filter (\<lambda>s. s \<noteq> []) (splitSep (dropWhile isSpace x)) = filter (\<lambda>s. s \<noteq> []) (splitSep x)"
proof (induction x)
  case Nil
  then show ?case by simp
next
  case (Cons c x)
  show ?case
  proof (cases "isSpace c")
    case True
    then have "isSep c" by (simp add: isSep_def)
    then show ?thesis using True Cons by (simp add: pieces_sep del: splitSep.simps)
  next
    case False
    then show ?thesis by simp
  qed
qed

lemma splitSep_piece:
  "\<forall>c\<in>set p. \<not> isSep c \<Longrightarrow>
   splitSep (p @ x) = (p @ hd (splitSep x)) # tl (splitSep x)"
proof (induction p)
  case Nil
  then show ?case using splitSep_not_Nil [of x] by simp
next
  case (Cons c p)
  then show ?case by simp
qed

lemma pieces_piece:
  assumes "p \<noteq> []" and "\<forall>c\<in>set p. \<not> isSep c" and "x = [] \<or> isSep (hd x)"
  shows "filter (\<lambda>s. s \<noteq> []) (splitSep (p @ x)) = p # filter (\<lambda>s. s \<noteq> []) (splitSep x)"
proof -
  have "hd (splitSep x) = []" using assms(3) by (cases x) auto
  moreover have "splitSep x = hd (splitSep x) # tl (splitSep x)"
    using splitSep_not_Nil [of x] by simp
  ultimately have "filter (\<lambda>s. s \<noteq> []) (splitSep x) = filter (\<lambda>s. s \<noteq> []) (tl (splitSep x))"
    by (metis (mono_tags, lifting) filter.simps(2))
  then show ?thesis
    using assms(1) \<open>hd (splitSep x) = []\<close> by (simp add: splitSep_piece [OF assms(2)])
qed

lemma pieces_inner:
  assumes "\<forall>(g, p)\<in>set gps. (\<forall>c\<in>set g. isSep c) \<and> g \<noteq> [] \<and> p \<noteq> [] \<and> (\<forall>c\<in>set p. \<not> isSep c)"
      and "\<forall>c\<in>set e. isSep c"
  shows "(concat (map (\<lambda>(g, p). g @ p) gps) @ e = []
            \<or> isSep (hd (concat (map (\<lambda>(g, p). g @ p) gps) @ e)))
       \<and> filter (\<lambda>s. s \<noteq> []) (splitSep (concat (map (\<lambda>(g, p). g @ p) gps) @ e)) = map snd gps"
  using assms(1)
proof (induction gps)
  case Nil
  have "filter (\<lambda>s. s \<noteq> []) (splitSep (e @ [])) = filter (\<lambda>s. s \<noteq> []) (splitSep [])"
    using assms(2) by (rule pieces_gap)
  then show ?case using assms(2) by (cases e) auto
next
  case (Cons a gps)
  obtain g p where a: "a = (g, p)" by (cases a)
  let ?X = "concat (map (\<lambda>(g, p). g @ p) gps) @ e"
  from Cons.prems have g: "\<forall>c\<in>set g. isSep c" "g \<noteq> []" and p: "p \<noteq> []" "\<forall>c\<in>set p. \<not> isSep c"
    and rest: "\<forall>(g, p)\<in>set gps. (\<forall>c\<in>set g. isSep c) \<and> g \<noteq> [] \<and> p \<noteq> [] \<and> (\<forall>c\<in>set p. \<not> isSep c)"
    by (auto simp: a)
  from Cons.IH [OF rest] have x: "?X = [] \<or> isSep (hd ?X)"
    and t: "filter (\<lambda>s. s \<noteq> []) (splitSep ?X) = map snd gps"
    by auto
  have "filter (\<lambda>s. s \<noteq> []) (splitSep (g @ p @ ?X)) = filter (\<lambda>s. s \<noteq> []) (splitSep (p @ ?X))"
    using g(1) by (rule pieces_gap)
  also have "\<dots> = p # filter (\<lambda>s. s \<noteq> []) (splitSep ?X)"
    using p x by (rule pieces_piece)
  finally have "filter (\<lambda>s. s \<noteq> []) (splitSep (g @ p @ ?X)) = p # map snd gps"
    by (simp only: t)
  moreover have "isSep (hd (g @ p @ ?X))" using g by (cases g) auto
  ultimately show ?case by (simp add: a)
qed

lemma pieces_pairs:
  assumes "\<forall>(g, p)\<in>set gps. (\<forall>c\<in>set g. isSep c) \<and> p \<noteq> [] \<and> (\<forall>c\<in>set p. \<not> isSep c)"
      and "\<forall>(g, p)\<in>set (tl gps). g \<noteq> []"
      and "\<forall>c\<in>set e. isSep c"
  shows "filter (\<lambda>s. s \<noteq> []) (splitSep (concat (map (\<lambda>(g, p). g @ p) gps) @ e)) = map snd gps"
proof (cases gps)
  case Nil
  then show ?thesis using pieces_inner [of "[]" e] assms(3) by simp
next
  case (Cons a rest)
  obtain g p where a: "a = (g, p)" by (cases a)
  let ?X = "concat (map (\<lambda>(g, p). g @ p) rest) @ e"
  from assms(1) have g: "\<forall>c\<in>set g. isSep c" and p: "p \<noteq> []" "\<forall>c\<in>set p. \<not> isSep c"
    by (auto simp: Cons a)
  have inner: "\<forall>(g, p)\<in>set rest. (\<forall>c\<in>set g. isSep c) \<and> g \<noteq> [] \<and> p \<noteq> [] \<and> (\<forall>c\<in>set p. \<not> isSep c)"
    using assms(1,2) by (auto simp: Cons)
  from pieces_inner [OF inner assms(3)] have x: "?X = [] \<or> isSep (hd ?X)"
    and t: "filter (\<lambda>s. s \<noteq> []) (splitSep ?X) = map snd rest"
    by auto
  have "filter (\<lambda>s. s \<noteq> []) (splitSep (g @ p @ ?X)) = filter (\<lambda>s. s \<noteq> []) (splitSep (p @ ?X))"
    using g by (rule pieces_gap)
  also have "\<dots> = p # filter (\<lambda>s. s \<noteq> []) (splitSep ?X)"
    using p x by (rule pieces_piece)
  finally show ?thesis by (simp add: Cons a t)
qed

lemma trim_pieces: "map trim (splitSep x) = splitSep x"
proof -
  have "trim p = p" if "p \<in> set (splitSep x)" for p
    using splitSep_sepfree [of x] that by (intro trim_id) (auto simp: isSep_def)
  then show ?thesis by (simp add: map_idI)
qed

lemma addPair_two:
  assumes "k \<noteq> []" and "v \<noteq> []" and "\<forall>c\<in>set (k @ v). \<not> isSpace c \<and> c \<noteq> 0x3D"
  shows "addPair js (k @ [0x3D] @ v @ [0x3D] @ rest) out = assign (toLowerCase js k) v out"
    and "addPair js (k @ [0x3D] @ v) out = assign (toLowerCase js k) v out"
proof -
  have nk: "0x3D \<notin> set k" and nv: "0x3D \<notin> set v" using assms(3) by auto
  have tk: "trim k = k" and tv: "trim v = v"
    using assms(3) by (auto intro!: trim_id)
  have one: "splitOn 0x3D v = [v]" using nv by (induction v) auto
  have "splitOn 0x3D (k @ 0x3D # v @ 0x3D # rest) = k # v # splitOn 0x3D rest"
    using nk nv by (simp add: splitOn_piece)
  then show "addPair js (k @ [0x3D] @ v @ [0x3D] @ rest) out = assign (toLowerCase js k) v out"
    using assms(1,2) by (simp add: addPair_def tk tv)
  have "splitOn 0x3D (k @ 0x3D # v) = [k, v]"
    using nk by (simp add: splitOn_piece one)
  then show "addPair js (k @ [0x3D] @ v) out = assign (toLowerCase js k) v out"
    using assms(1,2) by (simp add: addPair_def tk tv)
qed

lemma addPair_none:
  assumes "0x3D \<notin> set kv"
  shows "addPair js kv out = out"
proof -
  have "splitOn 0x3D kv = [kv]" using assms by (induction kv) auto
  then show ?thesis by (simp add: addPair_def)
qed

text \<open>The rules of the two configuration states, as equations.\<close>

lemma run_rule:
  assumes "state = JStr FLOW_EXISTING_DOC_CONFIG \<or> state = JStr FLOW_UPLOAD_DOC_CONFIG"
      and "re_run (trim text)"
  shows "matchRuleIntent js now text state meta =
           Some \<lparr>reply = runReply meta, newState = FLOW_QG_DONE,
                 metaPatch = Some [(asc ''lastRunAt'', JStr now)]\<rparr>"
  using assms(1) run_not_home [OF assms(2)] run_not_back [OF assms(2)] run_not_set [OF assms(2)]
    assms(2) state_names_distinct
  by (auto simp: matchRuleIntent_def)

lemma no_run_clock:
  assumes "\<not> ((state = JStr FLOW_EXISTING_DOC_CONFIG \<or> state = JStr FLOW_UPLOAD_DOC_CONFIG)
              \<and> re_run (trim text))"
  shows "matchRuleIntent js now text state meta = matchRuleIntent js now' text state meta"
  using assms by (auto simp: matchRuleIntent_def Let_def split: option.splits)

lemma set_rule:
  assumes "state = JStr FLOW_EXISTING_DOC_CONFIG \<or> state = JStr FLOW_UPLOAD_DOC_CONFIG"
      and "\<not> re_home (trim text)" and "\<not> re_back (trim text)" and "re_set (trim text)"
  shows "matchRuleIntent js now text state meta =
           Some \<lparr>reply = setReply (mergeConfig (parseKV js (trim text)) meta),
                 newState = (if state = JStr FLOW_EXISTING_DOC_CONFIG
                             then FLOW_EXISTING_DOC_CONFIG else FLOW_UPLOAD_DOC_CONFIG),
                 metaPatch = Some [(asc ''config'', mergeConfig (parseKV js (trim text)) meta)]\<rparr>"
  using assms state_names_distinct by (auto simp: matchRuleIntent_def Let_def)

lemma set1_facts:
  "trim t_set1 = t_set1" "\<not> re_home t_set1" "\<not> re_back t_set1" "re_set t_set1"
  "parseKV js t_set1 = [(asc ''questions'', JStr (asc ''20'')),
                     (asc ''difficulty'', JStr (asc ''hard''))]"
  by (simp_all add: t_set1_def eval_simps)

lemma set2_facts:
  "trim t_set2 = t_set2" "\<not> re_home t_set2" "\<not> re_back t_set2" "re_set t_set2"
  "parseKV js t_set2 = [(asc ''difficulty'', JStr (asc ''easy''))]"
  by (simp_all add: t_set2_def eval_simps)

lemma merge1:
  assumes "\<not> truthy (getProp (JObj meta) (asc ''config''))"
  shows "mergeConfig [(asc ''questions'', JStr (asc ''20'')),
                      (asc ''difficulty'', JStr (asc ''hard''))] meta
         = JObj [(asc ''questions'', JNum 20), (asc ''difficulty'', JStr (asc ''hard'')),
                 (asc ''type'', JStr (asc ''mcq''))]"
  using assms by (simp add: mergeConfig_def orElse_def nullish_def asc_def isDigit_def)

lemma merge2:
  assumes "getProp (JObj meta) (asc ''config'')
           = JObj [(asc ''questions'', JNum 20), (asc ''difficulty'', JStr (asc ''hard'')),
                   (asc ''type'', JStr (asc ''mcq''))]"
  shows "mergeConfig [(asc ''difficulty'', JStr (asc ''easy''))] meta
         = JObj [(asc ''questions'', JNum 20), (asc ''difficulty'', JStr (asc ''easy'')),
                 (asc ''type'', JStr (asc ''mcq''))]"
  unfolding mergeConfig_def assms by (simp add: orElse_def nullish_def asc_def Let_def)

subsection \<open>The claims\<close>

text \<open>
  Claim C1, as the code has it. The result of matchRuleIntent is a function of the text,
  the state, the metadata and the reading of the clock during the call, and the call changes
  nothing (it has no state to change). The clock is read by one rule only: in the two
  configuration states a run command returns the patch \<open>{lastRunAt: now}\<close>, with a reply
  and a next state that do not depend on the clock. For every other input two calls return
  the same result whatever the clock shows.
\<close>

theorem clock_read_only_by_run:
  "matchRuleIntent js now text state meta =
     (if (state = JStr FLOW_EXISTING_DOC_CONFIG \<or> state = JStr FLOW_UPLOAD_DOC_CONFIG)
         \<and> re_run (trim text)
      then Some \<lparr>reply = runReply meta, newState = FLOW_QG_DONE,
                 metaPatch = Some [(asc ''lastRunAt'', JStr now)]\<rparr>
      else matchRuleIntent js now' text state meta)"
proof (cases "(state = JStr FLOW_EXISTING_DOC_CONFIG \<or> state = JStr FLOW_UPLOAD_DOC_CONFIG)
              \<and> re_run (trim text)")
  case True
  then show ?thesis using run_rule [of state "text" js now meta] by simp
next
  case False
  have "matchRuleIntent js now text state meta = matchRuleIntent js now' text state meta"
    using False by (rule no_run_clock)
  then show ?thesis by (simp only: False if_False)
qed

text \<open>Both branches at concrete inputs: a run command in a configuration state, and the
  menu choice in the root state under two clocks.\<close>

theorem clock_read_only_by_run_witness:
  "matchRuleIntent exampleBuiltins (asc ''2026-01-01T00:00:00.000Z'') (asc ''run'') (JStr FLOW_UPLOAD_DOC_CONFIG) []
     = Some \<lparr>reply = runReply [], newState = FLOW_QG_DONE,
             metaPatch = Some [(asc ''lastRunAt'', JStr (asc ''2026-01-01T00:00:00.000Z''))]\<rparr>
   \<and> matchRuleIntent exampleBuiltins (asc ''2026-01-01T00:00:00.000Z'') (asc ''1-1'') (JStr ROOT_MENU) []
     = matchRuleIntent exampleBuiltins (asc ''2026-01-01T00:00:01.000Z'') (asc ''1-1'') (JStr ROOT_MENU) []"
proof -
  have run: "re_run (trim (asc ''run''))" by (simp add: eval_simps)
  have root: "JStr ROOT_MENU \<noteq> JStr FLOW_EXISTING_DOC_CONFIG"
             "JStr ROOT_MENU \<noteq> JStr FLOW_UPLOAD_DOC_CONFIG"
    using state_names_distinct by auto
  show ?thesis
    using clock_read_only_by_run [where js = exampleBuiltins
            and now = "asc ''2026-01-01T00:00:00.000Z''" and ?text = "asc ''run''"
            and state = "JStr FLOW_UPLOAD_DOC_CONFIG" and meta = "[]"]
          clock_read_only_by_run [where js = exampleBuiltins
            and now = "asc ''2026-01-01T00:00:00.000Z''" and ?text = "asc ''1-1''"
            and state = "JStr ROOT_MENU" and meta = "[]"
            and now' = "asc ''2026-01-01T00:00:01.000Z''"]
          run root
    by simp
qed

text \<open>Two calls with the same text, state and metadata, one second apart, differ.\<close>

theorem clock_counterexample:
  "matchRuleIntent exampleBuiltins (asc ''2026-01-01T00:00:00.000Z'') (asc ''run'') (JStr FLOW_EXISTING_DOC_CONFIG) []
   \<noteq> matchRuleIntent exampleBuiltins (asc ''2026-01-01T00:00:01.000Z'') (asc ''run'') (JStr FLOW_EXISTING_DOC_CONFIG) []"
proof -
  have run: "re_run (trim (asc ''run''))" by (simp add: eval_simps)
  show ?thesis
    by (simp add: run_rule [OF _ run]) (simp add: asc_def)
qed

text \<open>
  Claim C4, as the code has it. For a set command, which is \<open>set\<close> in any case, white
  space, a colon and pairs between runs of commas and white space, parseKV handles the
  pairs from left to right, each by the body of its loop. The body splits the pair at
  every \<open>=\<close> and keeps the first two pieces: for a pair whose value contains \<open>=\<close>, such
  as \<open>a=b=c\<close>, the parsed value is the text between the first and the second \<open>=\<close>
  (\<open>b\<close>) and what follows the second \<open>=\<close> is dropped; a pair with one \<open>=\<close> gives the
  text after it, and a pair without \<open>=\<close> gives nothing. The key is stored in lower case
  (and the key \<open>__proto__\<close> is not stored).
\<close>

theorem parseKV_first_two_pieces:
  assumes "map canon pre = map canon (asc ''set'')"
      and "\<forall>c\<in>set ws. isSpace c"
      and "\<forall>(g, p)\<in>set gps. (\<forall>c\<in>set g. isSep c) \<and> p \<noteq> [] \<and> (\<forall>c\<in>set p. \<not> isSep c)"
      and "\<forall>(g, p)\<in>set (tl gps). g \<noteq> []"
      and "\<forall>c\<in>set e. isSep c"
  shows "parseKV js (pre @ ws @ [0x3A] @ concat (map (\<lambda>(g, p). g @ p) gps) @ e)
           = fold (addPair js) (map snd gps) []
       \<and> (\<forall>k v rest out.
             k \<noteq> [] \<longrightarrow> v \<noteq> [] \<longrightarrow> (\<forall>c\<in>set (k @ v). \<not> isSpace c \<and> c \<noteq> 0x3D) \<longrightarrow>
             addPair js (k @ [0x3D] @ v @ [0x3D] @ rest) out = assign (toLowerCase js k) v out
             \<and> addPair js (k @ [0x3D] @ v) out = assign (toLowerCase js k) v out)
       \<and> (\<forall>kv out. 0x3D \<notin> set kv \<longrightarrow> addPair js kv out = out)"
proof (intro conjI allI impI)
  let ?body = "concat (map (\<lambda>(g, p). g @ p) gps) @ e"
  have "stripSet (pre @ ws @ [0x3A] @ ?body) = dropWhile isSpace ?body"
    using assms(1,2) by (rule stripSet_prefix)
  moreover have "filter (\<lambda>s. s \<noteq> []) (splitSep (dropWhile isSpace ?body)) = map snd gps"
    using pieces_pairs [OF assms(3,4,5)] by (simp only: pieces_space)
  ultimately show "parseKV js (pre @ ws @ [0x3A] @ ?body) = fold (addPair js) (map snd gps) []"
    by (simp add: parseKV_def trim_pieces del: append.simps append_assoc)
next
  fix k v rest out
  assume "k \<noteq> []" and "v \<noteq> []" and "\<forall>c\<in>set (k @ v). \<not> isSpace c \<and> c \<noteq> 0x3D"
  then show "addPair js (k @ [0x3D] @ v @ [0x3D] @ rest) out = assign (toLowerCase js k) v out"
    by (rule addPair_two)
next
  fix k v rest out
  assume "k \<noteq> []" and "v \<noteq> []" and "\<forall>c\<in>set (k @ v). \<not> isSpace c \<and> c \<noteq> 0x3D"
  then show "addPair js (k @ [0x3D] @ v) out = assign (toLowerCase js k) v out"
    by (rule addPair_two)
next
  fix kv :: jsstring and out
  assume "0x3D \<notin> set kv"
  then show "addPair js kv out = out" by (rule addPair_none)
qed

text \<open>The command \<open>Set : A=b=c, x=1,y ,\<close>: the key \<open>a\<close> has the value \<open>b\<close>, the key
  \<open>x\<close> the value \<open>1\<close>, and \<open>y\<close> gives nothing.\<close>

theorem parseKV_first_two_pieces_witness:
  "map canon (asc ''Set'') = map canon (asc ''set'')
   \<and> list_all isSpace (asc '' '')
   \<and> list_all (\<lambda>(g, p). list_all isSep g \<and> p \<noteq> [] \<and> list_all (\<lambda>c. \<not> isSep c) p)
        [(asc '' '', asc ''A=b=c''), (asc '', '', asc ''x=1''), (asc '','', asc ''y'')]
   \<and> list_all isSep (asc '' ,'')
   \<and> parseKV exampleBuiltins (asc ''Set : A=b=c, x=1,y ,'')
       = [(asc ''a'', JStr (asc ''b'')), (asc ''x'', JStr (asc ''1''))]
   \<and> addPair exampleBuiltins (asc ''A=b=c'') [] = [(asc ''a'', JStr (asc ''b''))]"
proof -
  let ?gps = "[(asc '' '', asc ''A=b=c''), (asc '', '', asc ''x=1''), (asc '','', asc ''y'')]"
  have h: "map canon (asc ''Set'') = map canon (asc ''set'')"
          "\<forall>c\<in>set (asc '' ''). isSpace c"
          "\<forall>(g, p)\<in>set ?gps. (\<forall>c\<in>set g. isSep c) \<and> p \<noteq> [] \<and> (\<forall>c\<in>set p. \<not> isSep c)"
          "\<forall>(g, p)\<in>set (tl ?gps). g \<noteq> []"
          "\<forall>c\<in>set (asc '' ,''). isSep c"
    by (simp_all add: class_simps)
  have p: "asc ''A'' \<noteq> []" "asc ''b'' \<noteq> []"
          "\<forall>c\<in>set (asc ''A'' @ asc ''b''). \<not> isSpace c \<and> c \<noteq> 0x3D"
    by (simp_all add: class_simps)
  have cmd: "asc ''Set'' @ asc '' '' @ [0x3A] @ concat (map (\<lambda>(g, p). g @ p) ?gps) @ asc '' ,''
               = asc ''Set : A=b=c, x=1,y ,''"
    by (simp add: asc_def)
  have pair: "asc ''A'' @ [0x3D] @ asc ''b'' @ [0x3D] @ asc ''c'' = asc ''A=b=c''"
             "asc ''x'' @ [0x3D] @ asc ''1'' = asc ''x=1''"
    by (simp_all add: asc_def)
  have x: "asc ''x'' \<noteq> []" "asc ''1'' \<noteq> []"
          "\<forall>c\<in>set (asc ''x'' @ asc ''1''). \<not> isSpace c \<and> c \<noteq> 0x3D"
    by (simp_all add: class_simps)
  have y: "0x3D \<notin> set (asc ''y'')" by (simp add: asc_def)
  note t = parseKV_first_two_pieces [OF h, where js = exampleBuiltins]
  have a1: "addPair exampleBuiltins (asc ''A=b=c'') out
              = assign (toLowerCase exampleBuiltins (asc ''A'')) (asc ''b'') out" for out
    using t p by (metis pair(1))
  have a2: "addPair exampleBuiltins (asc ''x=1'') out
              = assign (toLowerCase exampleBuiltins (asc ''x'')) (asc ''1'') out" for out
    using t x by (metis pair(2))
  have a3: "addPair exampleBuiltins (asc ''y'') out = out" for out
    using t y by blast
  have low: "toLowerCase exampleBuiltins (asc ''A'') = asc ''a''"
            "toLowerCase exampleBuiltins (asc ''x'') = asc ''x''"
    by (simp_all add: class_simps)
  have "parseKV exampleBuiltins (asc ''Set : A=b=c, x=1,y ,'')
          = fold (addPair exampleBuiltins) (map snd ?gps) []"
    using t by (simp only: cmd)
  then have "parseKV exampleBuiltins (asc ''Set : A=b=c, x=1,y ,'')
          = [(asc ''a'', JStr (asc ''b'')), (asc ''x'', JStr (asc ''1''))]"
    by (simp add: a1 a2 a3 low assign_def) (simp add: asc_def)
  moreover have "addPair exampleBuiltins (asc ''A=b=c'') [] = [(asc ''a'', JStr (asc ''b''))]"
    by (simp add: a1 low assign_def) (simp add: asc_def)
  ultimately show ?thesis
    using h by (simp add: list_all_iff case_prod_beta)
qed

text \<open>For \<open>set: a=b=c\<close> the parsed value of \<open>a\<close> is \<open>b\<close>, not the remainder \<open>b=c\<close>.\<close>

theorem parseKV_remainder_counterexample:
  "map_of (parseKV exampleBuiltins (asc ''set: a=b=c'')) (asc ''a'') = Some (JStr (asc ''b''))
   \<and> map_of (parseKV exampleBuiltins (asc ''set: a=b=c'')) (asc ''a'') \<noteq> Some (JStr (asc ''b=c''))"
  by (simp add: eval_simps)

text \<open>
  Claim C5. In either configuration state and with no prior configuration in the metadata,
  the transition for \<open>set: questions=20, difficulty=hard\<close> followed, on the metadata merged
  with its patch, by the transition for \<open>set: difficulty=easy\<close> stays in the state and
  yields the configuration \<open>{questions: 20, difficulty: "easy", type: "mcq"}\<close>, in the patch
  and in the merged metadata: the key the second command leaves out keeps the value of the
  first.
\<close>

theorem set_twice_merges:
  assumes st: "state = JStr FLOW_EXISTING_DOC_CONFIG \<or> state = JStr FLOW_UPLOAD_DOC_CONFIG"
      and nocfg: "\<not> truthy (getProp (JObj meta) (asc ''config''))"
  shows "case matchRuleIntent js now1 (asc ''set: questions=20, difficulty=hard'') state meta of
           None \<Rightarrow> False
         | Some r1 \<Rightarrow>
            (case metaPatch r1 of
               None \<Rightarrow> False
             | Some p1 \<Rightarrow>
                (case matchRuleIntent js now2 (asc ''set: difficulty=easy'') (JStr (newState r1))
                        (spread meta p1) of
                   None \<Rightarrow> False
                 | Some r2 \<Rightarrow>
                     JStr (newState r2) = state \<and>
                     metaPatch r2 = Some [(asc ''config'',
                        JObj [(asc ''questions'', JNum 20), (asc ''difficulty'', JStr (asc ''easy'')),
                              (asc ''type'', JStr (asc ''mcq''))])] \<and>
                     (case metaPatch r2 of
                        None \<Rightarrow> False
                      | Some p2 \<Rightarrow>
                          getProp (JObj (spread (spread meta p1) p2)) (asc ''config'')
                          = JObj [(asc ''questions'', JNum 20),
                                  (asc ''difficulty'', JStr (asc ''easy'')),
                                  (asc ''type'', JStr (asc ''mcq''))])))"
proof -
  let ?c1 = "JObj [(asc ''questions'', JNum 20), (asc ''difficulty'', JStr (asc ''hard'')),
                   (asc ''type'', JStr (asc ''mcq''))]"
  let ?st = "if state = JStr FLOW_EXISTING_DOC_CONFIG
             then FLOW_EXISTING_DOC_CONFIG else FLOW_UPLOAD_DOC_CONFIG"
  have r1: "matchRuleIntent js now1 t_set1 state meta =
          Some \<lparr>reply = setReply ?c1, newState = ?st, metaPatch = Some [(asc ''config'', ?c1)]\<rparr>"
    using set_rule [OF st, where ?text = t_set1 and js = js and now = now1 and meta = meta]
          merge1 [OF nocfg]
    by (simp add: set1_facts)
  have st': "JStr ?st = state"
    using st state_names_distinct by auto
  let ?m1 = "spread meta [(asc ''config'', ?c1)]"
  have cfg1: "getProp (JObj ?m1) (asc ''config'') = ?c1"
    by (simp add: spread_def map_of_setProp)
  have r2: "matchRuleIntent js now2 t_set2 state ?m1 =
          Some \<lparr>reply = setReply (mergeConfig (parseKV js t_set2) ?m1), newState = ?st,
                metaPatch = Some [(asc ''config'', mergeConfig (parseKV js t_set2) ?m1)]\<rparr>"
    using set_rule [OF st, where ?text = t_set2 and js = js and now = now2 and meta = ?m1]
    by (simp add: set2_facts)
  have cfg2: "getProp (JObj (spread ?m1 [(asc ''config'', c)])) (asc ''config'') = c" for c
    by (simp add: spread_def map_of_setProp)
  show ?thesis
    using r1 r2 st' merge2 [OF cfg1] cfg2
    by (simp add: t_set1_def [symmetric] t_set2_def [symmetric] set2_facts)
qed

text \<open>The existing-document configuration state with empty metadata.\<close>

theorem set_twice_merges_witness:
  "(JStr FLOW_EXISTING_DOC_CONFIG = JStr FLOW_EXISTING_DOC_CONFIG
      \<or> JStr FLOW_EXISTING_DOC_CONFIG = JStr FLOW_UPLOAD_DOC_CONFIG)
   \<and> \<not> truthy (getProp (JObj []) (asc ''config''))
   \<and> (case matchRuleIntent exampleBuiltins [] (asc ''set: questions=20, difficulty=hard'')
              (JStr FLOW_EXISTING_DOC_CONFIG) [] of
         None \<Rightarrow> False
       | Some r1 \<Rightarrow>
          (case metaPatch r1 of
             None \<Rightarrow> False
           | Some p1 \<Rightarrow>
              (case matchRuleIntent exampleBuiltins [] (asc ''set: difficulty=easy'') (JStr (newState r1))
                      (spread [] p1) of
                 None \<Rightarrow> False
               | Some r2 \<Rightarrow>
                   metaPatch r2 = Some [(asc ''config'',
                      JObj [(asc ''questions'', JNum 20), (asc ''difficulty'', JStr (asc ''easy'')),
                            (asc ''type'', JStr (asc ''mcq''))])])))"
proof -
  have h: "\<not> truthy (getProp (JObj []) (asc ''config''))" by simp
  show ?thesis
    using set_twice_merges [OF _ h, where state = "JStr FLOW_EXISTING_DOC_CONFIG"
            and js = exampleBuiltins and ?now1.0 = "[]" and ?now2.0 = "[]"] h
    by (auto split: option.splits)
qed

text \<open>
  Claim C9. In the state \<open>FLOW_QG_DONE\<close>, for every metadata, a back command (a text that is
  \<open>back\<close> or its Japanese word, in any case, with white space around it) leads to
  \<open>FLOW_EXISTING_DOC_CONFIG\<close> exactly when \<open>lastChoice\<close> is the string \<open>1-1\<close>, and to
  \<open>FLOW_UPLOAD_DOC_CONFIG\<close> for every other value of \<open>lastChoice\<close> and when it is absent.
\<close>

theorem qg_done_back:
  assumes "re_back (trim text)"
  shows "matchRuleIntent js now text (JStr FLOW_QG_DONE) meta =
           Some \<lparr>reply = [Lit r_back_cfg],
                 newState = (if map_of meta (asc ''lastChoice'') = Some (JStr (asc ''1-1''))
                             then FLOW_EXISTING_DOC_CONFIG else FLOW_UPLOAD_DOC_CONFIG),
                 metaPatch = None\<rparr>
         \<and> FLOW_EXISTING_DOC_CONFIG \<noteq> FLOW_UPLOAD_DOC_CONFIG"
  using assms back_not_home [OF assms] state_names_distinct
  by (auto simp: matchRuleIntent_def split: option.splits)

text \<open>Both branches: the tag \<open>1-1\<close>, and no tag.\<close>

theorem qg_done_back_witness:
  "re_back (trim (asc '' Back ''))
   \<and> matchRuleIntent exampleBuiltins [] (asc '' Back '') (JStr FLOW_QG_DONE)
         [(asc ''lastChoice'', JStr (asc ''1-1''))]
       = Some \<lparr>reply = [Lit r_back_cfg], newState = FLOW_EXISTING_DOC_CONFIG, metaPatch = None\<rparr>
   \<and> matchRuleIntent exampleBuiltins [] (asc '' Back '') (JStr FLOW_QG_DONE) []
       = Some \<lparr>reply = [Lit r_back_cfg], newState = FLOW_UPLOAD_DOC_CONFIG, metaPatch = None\<rparr>"
proof -
  have h: "re_back (trim (asc '' Back ''))" by (simp add: eval_simps)
  show ?thesis
    using qg_done_back [OF h, where js = exampleBuiltins and now = "[]"
            and meta = "[(asc ''lastChoice'', JStr (asc ''1-1''))]"]
          qg_done_back [OF h, where js = exampleBuiltins and now = "[]" and meta = "[]"] h
    by simp
qed

text \<open>
  Claim C10. For every state value other than the six dialog states (null, undefined, a
  state name the engine has no case for, any other value), and for every text and
  metadata, matchRuleIntent returns what it returns for \<open>ROOT_MENU\<close>.
\<close>

theorem unknown_state_as_root:
  assumes "state \<notin> {JStr ROOT_MENU, JStr FLOW_EXISTING_DOC_SELECT, JStr FLOW_EXISTING_DOC_CONFIG,
                     JStr FLOW_UPLOAD_DOC_WAIT, JStr FLOW_UPLOAD_DOC_CONFIG, JStr FLOW_QG_DONE}"
  shows "matchRuleIntent js now text state meta = matchRuleIntent js now text (JStr ROOT_MENU) meta"
  using assms state_names_distinct by (simp add: matchRuleIntent_def)

text \<open>The state \<open>FLOW_QG_TOPIC\<close>, which the scenario endpoint can set, and null.\<close>

theorem unknown_state_as_root_witness:
  "JStr (asc ''FLOW_QG_TOPIC'') \<notin> {JStr ROOT_MENU, JStr FLOW_EXISTING_DOC_SELECT,
        JStr FLOW_EXISTING_DOC_CONFIG, JStr FLOW_UPLOAD_DOC_WAIT, JStr FLOW_UPLOAD_DOC_CONFIG,
        JStr FLOW_QG_DONE}
   \<and> matchRuleIntent exampleBuiltins [] (asc ''1-1'') (JStr (asc ''FLOW_QG_TOPIC'')) []
       = matchRuleIntent exampleBuiltins [] (asc ''1-1'') (JStr ROOT_MENU) []
   \<and> matchRuleIntent exampleBuiltins [] (asc ''1-1'') JNull [] = matchRuleIntent exampleBuiltins [] (asc ''1-1'') (JStr ROOT_MENU) []"
proof -
  have h: "JStr (asc ''FLOW_QG_TOPIC'') \<notin> {JStr ROOT_MENU, JStr FLOW_EXISTING_DOC_SELECT,
        JStr FLOW_EXISTING_DOC_CONFIG, JStr FLOW_UPLOAD_DOC_WAIT, JStr FLOW_UPLOAD_DOC_CONFIG,
        JStr FLOW_QG_DONE}"
    by (simp add: state_defs asc_def)
  have n: "JNull \<notin> {JStr ROOT_MENU, JStr FLOW_EXISTING_DOC_SELECT,
        JStr FLOW_EXISTING_DOC_CONFIG, JStr FLOW_UPLOAD_DOC_WAIT, JStr FLOW_UPLOAD_DOC_CONFIG,
        JStr FLOW_QG_DONE}"
    by simp
  show ?thesis
    using unknown_state_as_root [OF h, where js = exampleBuiltins and now = "[]"
            and ?text = "asc ''1-1''" and meta = "[]"]
          unknown_state_as_root [OF n, where js = exampleBuiltins and now = "[]"
            and ?text = "asc ''1-1''" and meta = "[]"] h
    by simp
qed

section \<open>Properties of the state store\<close>

lemma stored_meta_after_set:
  assumes "selectConv tbl conversationId user_id = Some row"
  shows "snd (getConversationState
                (snd (setConversationState js tbl user_id conversationId state meta))
                user_id conversationId)
         = (if truthy meta then jsonImage js meta
            else (case c_meta row of Some v \<Rightarrow> v | None \<Rightarrow> JNull))"
  using assms
  by (auto simp: setConversationState_def getConversationState_def selectConv_def
           split: option.splits if_splits)

lemma jsonImage_isJson:
  "isJson js v \<Longrightarrow> jsonImage js v = v"
  "areJson js (map snd ps) \<Longrightarrow> jsonProps js ps = ps"
  "areJson js xs \<Longrightarrow> jsonItems js xs = xs"
  by (induction js v and js ps and js xs rule: jsonImage_jsonProps_jsonItems.induct)
     (auto split: numdesc.splits)

lemma jsonProps_keys: "k \<notin> fst ` set ps \<Longrightarrow> map_of (jsonProps js ps) k = None"
  by (induction ps) (auto split: if_splits)

lemma map_of_jsonProps:
  "distinct (map fst ps) \<Longrightarrow>
   map_of (jsonProps js ps) k
     = (case map_of ps k of
          None \<Rightarrow> None
        | Some v \<Rightarrow> (if v = JUndefined then None else Some (jsonImage js v)))"
proof (induction ps)
  case Nil
  then show ?case by simp
next
  case (Cons p ps)
  obtain k' v' where p: "p = (k', v')" by (cases p)
  from Cons.prems have d: "distinct (map fst ps)" and n: "k' \<notin> fst ` set ps"
    by (auto simp: p)
  show ?case
  proof (cases "k = k'")
    case True
    then show ?thesis using n by (simp add: p jsonProps_keys)
  next
    case False
    then show ?thesis using Cons.IH [OF d] by (simp add: p)
  qed
qed

text \<open>
  Claim C2, as the code has it. setConversationState replaces the stored metadata. For every
  existing conversation, with any old metadata \<open>M\<close>: after a call with a mapping \<open>P\<close>
  the stored metadata is \<open>P\<close> as \<open>JSON.stringify\<close> writes it, and after a call with
  null it is \<open>M\<close> as before. A mapping \<open>P\<close> of values of JSON is stored as it is. In
  general what is stored has the keys of \<open>P\<close> whose value is not undefined, each with
  the value of \<open>P\<close> as JSON has it (NaN and the infinities as null), and no other key:
  the keys of \<open>M\<close> that \<open>P\<close> lacks are dropped.
\<close>

theorem setConversationState_replaces:
  assumes "selectConv tbl conversationId user_id = Some row"
  shows "snd (getConversationState
                (snd (setConversationState js tbl user_id conversationId state (JObj P)))
                user_id conversationId)
         = JObj (jsonProps js P)
       \<and> snd (getConversationState
                (snd (setConversationState js tbl user_id conversationId state JNull))
                user_id conversationId)
         = (case c_meta row of Some M \<Rightarrow> M | None \<Rightarrow> JNull)
       \<and> (areJson js (map snd P) \<longrightarrow> jsonProps js P = P)
       \<and> (distinct (map fst P) \<longrightarrow>
            (\<forall>k. map_of (jsonProps js P) k
                   = (case map_of P k of
                        None \<Rightarrow> None
                      | Some v \<Rightarrow> (if v = JUndefined then None else Some (jsonImage js v)))))"
proof (intro conjI allI impI)
  show "snd (getConversationState
                (snd (setConversationState js tbl user_id conversationId state (JObj P)))
                user_id conversationId)
         = JObj (jsonProps js P)"
    by (simp add: stored_meta_after_set [OF assms])
next
  show "snd (getConversationState
                (snd (setConversationState js tbl user_id conversationId state JNull))
                user_id conversationId)
         = (case c_meta row of Some M \<Rightarrow> M | None \<Rightarrow> JNull)"
    by (simp add: stored_meta_after_set [OF assms])
next
  assume "areJson js (map snd P)"
  then show "jsonProps js P = P" by (rule jsonImage_isJson)
next
  fix k
  assume "distinct (map fst P)"
  then show "map_of (jsonProps js P) k
                   = (case map_of P k of
                        None \<Rightarrow> None
                      | Some v \<Rightarrow> (if v = JUndefined then None else Some (jsonImage js v)))"
    by (rule map_of_jsonProps)
qed

text \<open>A row with the metadata \<open>{a: 1}\<close>: set with \<open>{b: 2, c: NaN, d: undefined}\<close>, set
  with \<open>{b: 2}\<close>, and set with null.\<close>

theorem setConversationState_replaces_witness:
  "selectConv [5 \<mapsto> \<lparr>c_user = 7, c_state = Some ROOT_MENU,
                        c_meta = Some (JObj [(asc ''a'', JNum 1)])\<rparr>] 5 7
     = Some \<lparr>c_user = 7, c_state = Some ROOT_MENU, c_meta = Some (JObj [(asc ''a'', JNum 1)])\<rparr>
   \<and> snd (getConversationState
          (snd (setConversationState exampleBuiltins
                  [5 \<mapsto> \<lparr>c_user = 7, c_state = Some ROOT_MENU,
                          c_meta = Some (JObj [(asc ''a'', JNum 1)])\<rparr>]
                  7 5 (Some ROOT_MENU)
                  (JObj [(asc ''b'', JNum 2), (asc ''c'', JNaN), (asc ''d'', JUndefined)]))) 7 5)
     = JObj [(asc ''b'', JNum 2), (asc ''c'', JNull)]
   \<and> distinct (map fst [(asc ''b'', JNum 2), (asc ''c'', JNaN), (asc ''d'', JUndefined)])
   \<and> map (map_of (jsonProps exampleBuiltins
                     [(asc ''b'', JNum 2), (asc ''c'', JNaN), (asc ''d'', JUndefined)]))
         [asc ''a'', asc ''b'', asc ''c'', asc ''d'']
       = [None, Some (JNum 2), Some JNull, None]
   \<and> areJson exampleBuiltins (map snd [(asc ''b'', JNum 2)])
   \<and> snd (getConversationState
          (snd (setConversationState exampleBuiltins
                  [5 \<mapsto> \<lparr>c_user = 7, c_state = Some ROOT_MENU,
                          c_meta = Some (JObj [(asc ''a'', JNum 1)])\<rparr>]
                  7 5 (Some ROOT_MENU) (JObj [(asc ''b'', JNum 2)]))) 7 5)
     = JObj [(asc ''b'', JNum 2)]
   \<and> snd (getConversationState
          (snd (setConversationState exampleBuiltins
                  [5 \<mapsto> \<lparr>c_user = 7, c_state = Some ROOT_MENU,
                          c_meta = Some (JObj [(asc ''a'', JNum 1)])\<rparr>]
                  7 5 (Some ROOT_MENU) JNull)) 7 5)
     = JObj [(asc ''a'', JNum 1)]"
proof -
  let ?row = "\<lparr>c_user = 7, c_state = Some ROOT_MENU, c_meta = Some (JObj [(asc ''a'', JNum 1)])\<rparr>"
  let ?T = "[5 \<mapsto> ?row]"
  have sel: "selectConv ?T 5 7 = Some ?row" by (simp add: selectConv_def)
  have j: "areJson exampleBuiltins (map snd [(asc ''b'', JNum 2)])" by simp
  have d: "distinct (map fst [(asc ''b'', JNum 2), (asc ''c'', JNaN), (asc ''d'', JUndefined)])"
    by (simp add: asc_def)
  have m: "map_of [(asc ''b'', JNum 2), (asc ''c'', JNaN), (asc ''d'', JUndefined)] (asc ''a'') = None"
    "map_of [(asc ''b'', JNum 2), (asc ''c'', JNaN), (asc ''d'', JUndefined)] (asc ''b'') = Some (JNum 2)"
    "map_of [(asc ''b'', JNum 2), (asc ''c'', JNaN), (asc ''d'', JUndefined)] (asc ''c'') = Some JNaN"
    "map_of [(asc ''b'', JNum 2), (asc ''c'', JNaN), (asc ''d'', JUndefined)] (asc ''d'') = Some JUndefined"
    by (simp_all add: asc_def)
  note t = setConversationState_replaces [OF sel, where js = exampleBuiltins
            and state = "Some ROOT_MENU"
            and P = "[(asc ''b'', JNum 2), (asc ''c'', JNaN), (asc ''d'', JUndefined)]"]
  have keys: "map (map_of (jsonProps exampleBuiltins
                     [(asc ''b'', JNum 2), (asc ''c'', JNaN), (asc ''d'', JUndefined)]))
         [asc ''a'', asc ''b'', asc ''c'', asc ''d'']
       = [None, Some (JNum 2), Some JNull, None]"
    using t d by (simp add: m del: jsonProps.simps map_of.simps)
  show ?thesis
    using t setConversationState_replaces [OF sel, where js = exampleBuiltins
            and state = "Some ROOT_MENU" and P = "[(asc ''b'', JNum 2)]"]
          sel j d keys
    by simp
qed

text \<open>After the call with \<open>{b: 2}\<close> the key \<open>a\<close> of the old metadata is gone.\<close>

theorem setConversationState_counterexample:
  "getProp (snd (getConversationState
             (snd (setConversationState exampleBuiltins
                     [1 \<mapsto> \<lparr>c_user = 1, c_state = Some ROOT_MENU,
                              c_meta = Some (JObj [(asc ''a'', JNum 1)])\<rparr>]
                     1 1 (Some ROOT_MENU) (JObj [(asc ''b'', JNum 2)])))
             1 1)) (asc ''a'') = JUndefined
   \<and> getProp (JObj [(asc ''a'', JNum 1)]) (asc ''a'') = JNum 1"
  by (simp add: setConversationState_def getConversationState_def selectConv_def asc_def)

section \<open>Properties of the job orchestrator\<close>

subsection \<open>Steps and invariants\<close>

lemma progressFile_inj: "progressFile a = progressFile b \<longleftrightarrow> a = b"
  by (simp add: progressFile_def)

lemma launchJob_effect:
  assumes "j \<notin> set (drawn t)"
  shows "launched (decStr (int u) @ asc '':'' @ strOf js c) j t (snd (launchJob js b u c st j t))
       \<or> thrown (decStr (int u) @ asc '':'' @ strOf js c) j t (snd (launchJob js b u c st j t))"
  using assms
  by (cases st)
     (simp_all add: launchJob_def writeProgress_def initialRecord_def Let_def launched_def
        thrown_def registered_def)

lemma start_effect:
  assumes "step js e s = Some s'" and "e = Start u c j \<or> e = StartSpawnThrows u c j"
  shows "quiet s s' \<or> launched (decStr (int u) @ asc '':'' @ strOf js c) j s s'
       \<or> thrown (decStr (int u) @ asc '':'' @ strOf js c) j s s'"
proof -
  let ?key = "decStr (int u) @ asc '':'' @ strOf js c"
  from assms obtain b where nd: "j \<notin> set (drawn s)" and s': "s' = snd (processStart js b u c j s)"
    by (auto split: if_splits)
  have "s' = s \<or> (\<exists>st tbl. s' = snd (launchJob js b u c st j (s\<lparr>conversations := tbl\<rparr>)))"
  proof (cases "numberDesc js c")
    case Throws
    then show ?thesis by (simp add: s' processStart_def)
  next
    case (NotFinite t)
    then show ?thesis by (simp add: s' processStart_def)
  next
    case (Finite i t)
    show ?thesis
    proof (cases i)
      case None
      then show ?thesis using Finite by (simp add: s' processStart_def)
    next
      case (Some n)
      have same: "s\<lparr>conversations := conversations s\<rparr> = s" by simp
      show ?thesis
        unfolding s' processStart_def Finite Some
        by (auto simp: Let_def split: option.splits list.splits prod.splits intro: same [symmetric])
           (metis same)+
    qed
  qed
  then show ?thesis
  proof (elim disjE exE)
    assume "s' = s"
    then show ?thesis by (simp add: quiet_def)
  next
    fix st tbl
    assume a: "s' = snd (launchJob js b u c st j (s\<lparr>conversations := tbl\<rparr>))"
    have "j \<notin> set (drawn (s\<lparr>conversations := tbl\<rparr>))" using nd by simp
    from launchJob_effect [OF this, of u js c b st]
    show ?thesis
      unfolding a launched_def thrown_def registered_def using nd by auto
  qed
qed

lemma run_invariant:
  assumes "\<And>e s s'. I s \<Longrightarrow> step js e s = Some s' \<Longrightarrow> I s'"
      and "I s" and "run js es s = Some s'"
  shows "I s'"
  using assms(2,3)
proof (induction es arbitrary: s)
  case Nil
  then show ?case by simp
next
  case (Cons e es)
  then obtain s1 where "step js e s = Some s1" and "run js es s1 = Some s'"
    by (auto split: option.splits)
  with Cons assms(1) show ?case by blast
qed

lemma firstWrite_append:
  "firstWrite j (h @ h') = (case firstWrite j h of Some r \<Rightarrow> Some r | None \<Rightarrow> firstWrite j h')"
  by (induction j h rule: firstWrite.induct) auto

lemma firstWrite_None: "firstWrite j h = None \<longleftrightarrow> (\<forall>r. Wrote j r \<notin> set h)"
  by (induction j h rule: firstWrite.induct) auto

lemma launchAfterRecord_append:
  "launchAfterRecord p (h @ h') =
     (launchAfterRecord p h \<and> launchAfterRecord (if h = [] then p else Some (last h)) h')"
  by (induction h arbitrary: p) auto

lemma stage_simps:
  "stageOf (progressRecord st m) = JStr st"
  by (simp add: stageOf_def progressRecord_def asc_def)

lemma stage_names:
  "asc ''analysis'' \<noteq> asc ''qa''" "asc ''error'' \<noteq> asc ''qa''" "asc ''done'' \<noteq> asc ''qa''"
  "asc ''analysis'' \<noteq> asc ''generation''" "asc ''error'' \<noteq> asc ''generation''"
  "asc ''done'' \<noteq> asc ''generation''" "asc ''qa'' \<noteq> asc ''generation''"
  "asc ''analysis'' \<noteq> asc ''error''"
  by (simp_all add: asc_def)

lemmas handler_defs = onWorkerError_def onWorkerExit_def onWorkerExitThrow_def onQaError_def
  onQaExit_def writeProgress_def

lemmas outcome_defs = quiet_def launched_def thrown_def registered_def

lemma not_in_history:
  assumes "\<forall>a\<in>set h. jobOf a \<in> D" and "j \<notin> D"
  shows "Spawned st j \<notin> set h" and "Wrote j r \<notin> set h"
  using assms by (metis jobOf.simps(2)) (metis assms jobOf.simps(1))

lemma chainInv_start:
  assumes "chainInv s"
      and "quiet s s' \<or> launched key j s s' \<or> thrown key j s s'"
  shows "chainInv s'"
proof -
  have h: "\<forall>a\<in>set (history s). jobOf a \<in> set (drawn s)"
    using assms(1) by (simp add: chainInv_def)
  have "Spawned st j \<notin> set (history s)" "Wrote j r \<notin> set (history s)"
    if "j \<notin> set (drawn s)" for st r
    using not_in_history [OF h that] by auto
  then show ?thesis
    using assms unfolding chainInv_def outcome_defs by (auto simp: subset_iff)
qed

lemma chainInv_step:
  assumes "chainInv s" and "step js e s = Some s'"
  shows "chainInv s'"
proof (cases e)
  case (Start u c j)
  then show ?thesis using chainInv_start [OF assms(1) start_effect [OF assms(2)]] by blast
next
  case (StartSpawnThrows u c j)
  then show ?thesis using chainInv_start [OF assms(1) start_effect [OF assms(2)]] by blast
next
  case (WorkerError j e')
  with assms show ?thesis
    by (auto simp: chainInv_def handler_defs subset_iff split: if_splits)
next
  case (WorkerExit j code)
  with assms show ?thesis
    by (auto simp: chainInv_def handler_defs Let_def subset_iff split: if_splits)
next
  case (WorkerExitSpawnThrows j)
  with assms show ?thesis
    by (auto simp: chainInv_def handler_defs subset_iff split: if_splits)
next
  case (QaError j e')
  with assms show ?thesis
    by (auto simp: chainInv_def handler_defs subset_iff split: if_splits)
next
  case (QaExit j c2)
  with assms show ?thesis
    by (auto simp: chainInv_def handler_defs subset_iff split: if_splits)
next
  case (StageWrite j c)
  with assms show ?thesis
    by (auto simp: chainInv_def split: if_splits)
qed

lemma fresh_no_write:
  assumes "\<forall>a\<in>set h. jobOf a \<in> D" and "j \<notin> D"
  shows "firstWrite j h = None"
proof -
  have "Wrote j r \<notin> set h" for r
    using assms by (metis jobOf.simps(1))
  then show ?thesis by (simp add: firstWrite_None)
qed

lemma stages_in:
  "stageOf initialRecord \<in> orchestratorStages" "stageOf qaRecord \<in> orchestratorStages"
  "stageOf (progressRecord (asc ''error'') m) \<in> orchestratorStages"
  "stageOf (progressRecord (asc ''done'') m) \<in> orchestratorStages"
  by (simp_all add: stage_simps orchestratorStages_def initialRecord_def qaRecord_def)

lemma ledgerInv_start:
  assumes "ledgerInv s"
      and "quiet s s' \<or> launched key j s s' \<or> thrown key j s s'"
  shows "ledgerInv s'"
  using assms(2)
proof (elim disjE)
  assume "quiet s s'"
  with assms(1) show ?thesis by (simp add: ledgerInv_def quiet_def)
next
  assume a: "launched key j s s'"
  have inv: "set (workers s) \<subseteq> set (drawn s)" "set (qas s) \<subseteq> set (drawn s)"
    "\<forall>a\<in>set (history s). jobOf a \<in> set (drawn s)"
    "\<forall>j r. Wrote j r \<in> set (history s) \<longrightarrow> stageOf r \<in> orchestratorStages"
    "\<forall>j\<in>set (drawn s). firstWrite j (history s) = Some initialRecord"
    "launchAfterRecord None (history s)"
    using assms(1) by (simp_all add: ledgerInv_def)
  have nd: "j \<notin> set (drawn s)" using a by (simp add: outcome_defs)
  have none: "firstWrite j (history s) = None"
    using inv(3) nd by (auto intro: fresh_no_write)
  have first: "\<forall>k\<in>set (drawn s'). firstWrite k (history s') = Some initialRecord"
    using a inv(5) none by (auto simp: firstWrite_append outcome_defs)
  have launch: "launchAfterRecord None (history s')"
    using a inv(6) by (simp add: launchAfterRecord_append outcome_defs)
  show ?thesis
    unfolding ledgerInv_def
    using a inv(1-4) first launch stages_in(1) by (auto simp: subset_iff outcome_defs)
next
  assume a: "thrown key j s s'"
  have inv: "set (workers s) \<subseteq> set (drawn s)" "set (qas s) \<subseteq> set (drawn s)"
    "\<forall>a\<in>set (history s). jobOf a \<in> set (drawn s)"
    "\<forall>j r. Wrote j r \<in> set (history s) \<longrightarrow> stageOf r \<in> orchestratorStages"
    "\<forall>j\<in>set (drawn s). firstWrite j (history s) = Some initialRecord"
    "launchAfterRecord None (history s)"
    using assms(1) by (simp_all add: ledgerInv_def)
  have nd: "j \<notin> set (drawn s)" using a by (simp add: outcome_defs)
  have none: "firstWrite j (history s) = None"
    using inv(3) nd by (auto intro: fresh_no_write)
  have first: "\<forall>k\<in>set (drawn s'). firstWrite k (history s') = Some initialRecord"
    using a inv(5) none by (auto simp: firstWrite_append outcome_defs)
  have launch: "launchAfterRecord None (history s')"
    using a inv(6) by (simp add: launchAfterRecord_append outcome_defs)
  show ?thesis
    unfolding ledgerInv_def
    using a inv(1-4) first launch stages_in(1) by (auto simp: subset_iff outcome_defs)
qed

lemma ledgerInv_step:
  assumes "ledgerInv s" and "step js e s = Some s'"
  shows "ledgerInv s'"
proof (cases e)
  case (Start u c j)
  then show ?thesis using ledgerInv_start [OF assms(1) start_effect [OF assms(2)]] by blast
next
  case (StartSpawnThrows u c j)
  then show ?thesis using ledgerInv_start [OF assms(1) start_effect [OF assms(2)]] by blast
next
  case (WorkerError j e')
  with assms show ?thesis
    by (auto simp: ledgerInv_def handler_defs subset_iff firstWrite_append launchAfterRecord_append
                   stages_in split: if_splits)
next
  case (WorkerExit j code)
  with assms show ?thesis
    by (auto simp: ledgerInv_def handler_defs Let_def subset_iff firstWrite_append
                   launchAfterRecord_append stages_in qaRecord_def [symmetric] split: if_splits)
next
  case (WorkerExitSpawnThrows j)
  with assms show ?thesis
    by (auto simp: ledgerInv_def handler_defs subset_iff firstWrite_append launchAfterRecord_append
                   stages_in qaRecord_def [symmetric] split: if_splits)
next
  case (QaError j e')
  with assms show ?thesis
    by (auto simp: ledgerInv_def handler_defs subset_iff firstWrite_append launchAfterRecord_append
                   stages_in split: if_splits)
next
  case (QaExit j c2)
  with assms show ?thesis
    by (auto simp: ledgerInv_def handler_defs subset_iff firstWrite_append launchAfterRecord_append
                   stages_in split: if_splits)
next
  case (StageWrite j c)
  with assms show ?thesis
    by (auto simp: ledgerInv_def split: if_splits)
qed

lemma failedJob_start:
  assumes "failedJob j r s"
      and "quiet s s' \<or> launched key j' s s' \<or> thrown key j' s s'"
  shows "failedJob j r s'"
proof -
  have "j' \<noteq> j" if "registered key j' s s'"
    using that assms(1) by (auto simp: failedJob_def registered_def)
  then show ?thesis
    using assms unfolding failedJob_def outcome_defs
    by (auto simp: progressFile_inj stage_simps initialRecord_def stage_names)
qed

lemma failedJob_step:
  assumes "failedJob j r s" and "step js e s = Some s'"
  shows "failedJob j r s'"
proof (cases e)
  case (Start u c j')
  then show ?thesis using failedJob_start [OF assms(1) start_effect [OF assms(2)]] by blast
next
  case (StartSpawnThrows u c j')
  then show ?thesis using failedJob_start [OF assms(1) start_effect [OF assms(2)]] by blast
next
  case (WorkerError j' e')
  with assms show ?thesis
    by (auto simp: failedJob_def handler_defs progressFile_inj split: if_splits)
next
  case (WorkerExit j' code)
  with assms show ?thesis
    by (auto simp: failedJob_def handler_defs Let_def progressFile_inj split: if_splits)
next
  case (WorkerExitSpawnThrows j')
  with assms show ?thesis
    by (auto simp: failedJob_def handler_defs progressFile_inj split: if_splits)
next
  case (QaError j' e')
  with assms show ?thesis
    by (auto simp: failedJob_def handler_defs progressFile_inj split: if_splits)
next
  case (QaExit j' c2)
  with assms show ?thesis
    by (auto simp: failedJob_def handler_defs progressFile_inj split: if_splits)
next
  case (StageWrite j' c)
  with assms show ?thesis
    by (auto simp: failedJob_def progressFile_inj split: if_splits)
qed

lemma strandedJob_start:
  assumes "strandedJob j s"
      and "quiet s s' \<or> launched key j' s s' \<or> thrown key j' s s'"
  shows "strandedJob j s'"
proof -
  have "j' \<noteq> j" if "registered key j' s s'"
    using that assms(1) by (auto simp: strandedJob_def registered_def)
  then show ?thesis
    using assms unfolding strandedJob_def outcome_defs
    by (auto simp: progressFile_inj)
qed

lemma strandedJob_step:
  assumes "strandedJob j s" and "step js e s = Some s'"
  shows "strandedJob j s'"
proof (cases e)
  case (Start u c j')
  then show ?thesis using strandedJob_start [OF assms(1) start_effect [OF assms(2)]] by blast
next
  case (StartSpawnThrows u c j')
  then show ?thesis using strandedJob_start [OF assms(1) start_effect [OF assms(2)]] by blast
next
  case (WorkerError j' e')
  with assms show ?thesis
    by (auto simp: strandedJob_def handler_defs progressFile_inj split: if_splits)
next
  case (WorkerExit j' code)
  with assms show ?thesis
    by (auto simp: strandedJob_def handler_defs Let_def progressFile_inj split: if_splits)
next
  case (WorkerExitSpawnThrows j')
  with assms show ?thesis
    by (auto simp: strandedJob_def handler_defs progressFile_inj split: if_splits)
next
  case (QaError j' e')
  with assms show ?thesis
    by (auto simp: strandedJob_def handler_defs progressFile_inj split: if_splits)
next
  case (QaExit j' c2)
  with assms show ?thesis
    by (auto simp: strandedJob_def handler_defs progressFile_inj split: if_splits)
next
  case (StageWrite j' c)
  with assms show ?thesis
    by (auto simp: strandedJob_def progressFile_inj split: if_splits)
qed

lemma fresh_chainInv: "fresh s \<Longrightarrow> chainInv s"
  by (simp add: fresh_def chainInv_def)

lemma fresh_ledgerInv: "fresh s \<Longrightarrow> ledgerInv s"
  by (simp add: fresh_def ledgerInv_def)

subsection \<open>Evaluation on the example server\<close>

lemma decStr_digit: "0 \<le> i \<Longrightarrow> i < 10 \<Longrightarrow> decStr i = [0x30 + nat i]"
  by (simp add: decStr_def decNat.simps)

lemma job_facts: "job1 \<noteq> job2" "job1 \<noteq> []" "job2 \<noteq> []"
  by (simp_all add: job1_def job2_def asc_def)

lemma example_fresh: "fresh exampleServer"
  by (simp add: fresh_def exampleServer_def)

lemma start_launches:
  assumes "j \<notin> set (drawn s)" and "numberDesc js c = Finite (Some n) t"
      and "selectConv (conversations s) n u = Some row" and "c_meta row = Some (JObj ps)"
      and "map_of ps (asc ''stored_filename'') = Some st" and "truthy st"
  shows "step js (Start u c j) s = Some (snd (launchJob js False u c st j s))"
  using assms
  by (simp add: processStart_def getConversationState_def orElse_def Let_def)

lemma launchJob_fields:
  "files (snd (launchJob js False u c (JStr name) j s))
     = (files s)(progressFile j \<mapsto> Json initialRecord)"
  "convJobMap (snd (launchJob js False u c (JStr name) j s))
     = (convJobMap s)(decStr (int u) @ asc '':'' @ strOf js c \<mapsto> j)"
  "workers (snd (launchJob js False u c (JStr name) j s)) = j # workers s"
  "drawn (snd (launchJob js False u c (JStr name) j s)) = j # drawn s"
  "qas (snd (launchJob js False u c (JStr name) j s)) = qas s"
  "conversations (snd (launchJob js False u c (JStr name) j s)) = conversations s"
  "history (snd (launchJob js False u c (JStr name) j s))
     = history s @ [Wrote j initialRecord, Spawned Worker j]"
  by (simp_all add: launchJob_def writeProgress_def initialRecord_def Let_def)

lemma launchJob_number_fields:
  "files (snd (launchJob js b u c (JNum n) j s))
     = (files s)(progressFile j \<mapsto> Json initialRecord)"
  "convJobMap (snd (launchJob js b u c (JNum n) j s))
     = (convJobMap s)(decStr (int u) @ asc '':'' @ strOf js c \<mapsto> j)"
  "workers (snd (launchJob js b u c (JNum n) j s)) = workers s"
  "drawn (snd (launchJob js b u c (JNum n) j s)) = j # drawn s"
  "qas (snd (launchJob js b u c (JNum n) j s)) = qas s"
  "conversations (snd (launchJob js b u c (JNum n) j s)) = conversations s"
  "history (snd (launchJob js b u c (JNum n) j s)) = history s @ [Wrote j initialRecord]"
  by (simp_all add: launchJob_def writeProgress_def initialRecord_def Let_def)

lemma workerExit_step:
  assumes "j \<in> set (workers s)"
  shows "step js (WorkerExit j code) s
           = Some (onWorkerExit j code (s\<lparr>workers := removeAll j (workers s)\<rparr>))"
  using assms by simp

lemma onWorkerExit_ok_fields:
  "files (onWorkerExit j (Some 0) s) = (files s)(progressFile j \<mapsto> Json qaRecord)"
  "convJobMap (onWorkerExit j (Some 0) s) = convJobMap s"
  "workers (onWorkerExit j (Some 0) s) = workers s"
  "drawn (onWorkerExit j (Some 0) s) = drawn s"
  "qas (onWorkerExit j (Some 0) s) = j # qas s"
  "conversations (onWorkerExit j (Some 0) s) = conversations s"
  "history (onWorkerExit j (Some 0) s) = history s @ [Wrote j qaRecord, Spawned MakeQA j]"
  by (simp_all add: onWorkerExit_def writeProgress_def qaRecord_def Let_def)

lemma onWorkerExit_bad_fields:
  assumes "code \<noteq> Some 0"
  shows "files (onWorkerExit j code s)
           = (files s)(progressFile j \<mapsto> Json (progressRecord (asc ''error'') (asc ''worker exit '' @ codeStr code)))"
    and "convJobMap (onWorkerExit j code s) = convJobMap s"
    and "workers (onWorkerExit j code s) = workers s"
    and "drawn (onWorkerExit j code s) = drawn s"
    and "qas (onWorkerExit j code s) = qas s"
    and "conversations (onWorkerExit j code s) = conversations s"
    and "history (onWorkerExit j code s)
           = history s @ [Wrote j (progressRecord (asc ''error'') (asc ''worker exit '' @ codeStr code))]"
  using assms by (simp_all add: onWorkerExit_def writeProgress_def)

lemma example_conv:
  "selectConv (conversations exampleServer) 5 7
     = Some \<lparr>c_user = 7, c_state = Some ROOT_MENU, c_meta = Some (JObj exampleMeta)\<rparr>"
  "map_of exampleMeta (asc ''stored_filename'') = Some (JStr (asc ''7_1700000000000_lecture.mp4''))"
  "truthy (JStr (asc ''7_1700000000000_lecture.mp4''))"
  "drawn exampleServer = []" "workers exampleServer = []" "qas exampleServer = []"
  "convJobMap exampleServer = Map.empty" "files exampleServer = Map.empty"
  "history exampleServer = []"
  by (simp_all add: exampleServer_def exampleMeta_def selectConv_def asc_def)

lemma num05:
  "numberDesc js (JStr (asc ''05'')) = Finite (Some 5) (asc ''5'')"
  "strOf js (JStr (asc ''05'')) = asc ''05''"
  "numberDesc js (JNum 5) = Finite (Some 5) (asc ''5'')"
  "strOf js (JNum 5) = asc ''5''"
  "numberDesc js (JStr (asc ''5'')) = Finite (Some 5) (asc ''5'')"
  "decStr 5 = asc ''5''" "decStr 7 = asc ''7''"
  by (simp_all add: numberDesc_def asc_def isDigit_def decStr_digit)

lemma start_on_example:
  assumes "j \<notin> set (drawn s)" and "conversations s = conversations exampleServer"
      and "numberDesc js c = Finite (Some 5) t"
  shows "step js (Start 7 c j) s
           = Some (snd (launchJob js False 7 c (JStr (asc ''7_1700000000000_lecture.mp4'')) j s))"
proof -
  have row: "selectConv (conversations s) 5 7
     = Some \<lparr>c_user = 7, c_state = Some ROOT_MENU, c_meta = Some (JObj exampleMeta)\<rparr>"
    by (simp only: assms(2) example_conv(1))
  have m: "c_meta \<lparr>c_user = 7, c_state = Some ROOT_MENU, c_meta = Some (JObj exampleMeta)\<rparr>
             = Some (JObj exampleMeta)"
    by simp
  show ?thesis
    using assms(1,3) row m example_conv(2,3) by (rule start_launches)
qed

lemma getProgress_by_job:
  "j \<noteq> [] \<Longrightarrow> getProgress js s u (Some j) c = readProgress s j"
  by (simp add: getProgress_def given_def)

lemma getProgress_by_conversation:
  "c \<noteq> [] \<Longrightarrow>
   getProgress js s u None (Some c)
     = (case convJobMap s (pollKey js u c) of
          None \<Rightarrow> unknownRecord
        | Some j \<Rightarrow> if j = [] then unknownRecord else readProgress s j)"
  by (simp add: getProgress_def given_def)

lemma pollKey_example:
  "pollKey js 7 (asc ''05'') = asc ''7'' @ asc '':'' @ asc ''5''"
  "pollKey js 7 (asc ''5'') = asc ''7'' @ asc '':'' @ asc ''5''"
  by (simp_all add: pollKey_def num05 del: append.simps)

lemma codeStr1: "codeStr (Some 1) = asc ''1''"
  by (simp add: codeStr_def decStr_digit asc_def)

lemma stage_vocab:
  "JStr (asc ''analysis'') \<notin> {JStr (asc ''extraction''), JStr (asc ''generation''),
       JStr (asc ''done''), JStr (asc ''error''), JStr (asc ''unknown'')}"
  by (simp add: asc_def)

subsection \<open>The claims\<close>

text \<open>
  Claim C3, as the code has it. Every progress record the orchestrator writes carries a
  stage of the vocabulary \<open>analysis\<close>, \<open>qa\<close>, \<open>done\<close>, \<open>error\<close>. For every started
  job the first record written is the record of the stage \<open>analysis\<close> with the message of
  the source (and no record is written for an identifier that was not drawn), and a launch
  of makeQA comes directly after the write of the record of the stage \<open>qa\<close> for its job,
  which is what the exit of the worker with code 0 writes before it launches makeQA.
\<close>

theorem orchestrator_records:
  assumes "fresh s0" and "run js es s0 = Some s"
  shows "(\<forall>j r. Wrote j r \<in> set (history s) \<longrightarrow> stageOf r \<in> orchestratorStages)
       \<and> (\<forall>j\<in>set (drawn s). firstWrite j (history s) = Some initialRecord)
       \<and> (\<forall>j. j \<notin> set (drawn s) \<longrightarrow> firstWrite j (history s) = None)
       \<and> launchAfterRecord None (history s)
       \<and> (\<forall>j t. step js (WorkerExit j (Some 0)) s = Some t \<longrightarrow>
             history t = history s @ [Wrote j qaRecord, Spawned MakeQA j])"
proof -
  have inv: "ledgerInv s"
    using ledgerInv_step fresh_ledgerInv [OF assms(1)] assms(2) by (rule run_invariant)
  have "firstWrite j (history s) = None" if "j \<notin> set (drawn s)" for j
    using inv that by (auto simp: ledgerInv_def intro: fresh_no_write)
  moreover have "history t = history s @ [Wrote j qaRecord, Spawned MakeQA j]"
    if "step js (WorkerExit j (Some 0)) s = Some t" for j t
    using that by (auto simp: handler_defs qaRecord_def Let_def split: if_splits)
  ultimately show ?thesis
    using inv by (simp add: ledgerInv_def)
qed

text \<open>A job on the example server whose worker exits with code 0.\<close>

theorem orchestrator_records_witness:
  "map_option (\<lambda>s. (firstWrite job1 (history s), launchAfterRecord None (history s), history s))
     (run exampleBuiltins [Start 7 (JNum 5) job1, WorkerExit job1 (Some 0)] exampleServer)
   = Some (Some initialRecord, True,
           [Wrote job1 initialRecord, Spawned Worker job1, Wrote job1 qaRecord, Spawned MakeQA job1])"
proof -
  let ?js = exampleBuiltins
  let ?S1 = "snd (launchJob ?js False 7 (JNum 5) (JStr (asc ''7_1700000000000_lecture.mp4'')) job1
                    exampleServer)"
  let ?S2 = "onWorkerExit job1 (Some 0) (?S1\<lparr>workers := removeAll job1 (workers ?S1)\<rparr>)"
  note f = launchJob_fields
  have s1: "step ?js (Start 7 (JNum 5) job1) exampleServer = Some ?S1"
    by (rule start_on_example) (simp_all add: example_conv num05)
  have st: "step ?js (WorkerExit job1 (Some 0)) ?S1 = Some ?S2"
    by (rule workerExit_step) (simp add: f)
  have whole: "run ?js [Start 7 (JNum 5) job1, WorkerExit job1 (Some 0)] exampleServer = Some ?S2"
    using s1 st by (simp del: step.simps)
  have d: "job1 \<in> set (drawn ?S2)"
    by (simp add: onWorkerExit_ok_fields f)
  have h: "history ?S2 = [Wrote job1 initialRecord, Spawned Worker job1, Wrote job1 qaRecord,
                          Spawned MakeQA job1]"
    by (simp add: onWorkerExit_ok_fields f example_conv)
  show ?thesis
    using orchestrator_records [OF example_fresh whole] d
    by (simp add: whole h del: step.simps run.simps)
qed

text \<open>The first record of a job has the stage \<open>analysis\<close>, which is not \<open>extraction\<close> and
  not in the vocabulary \<open>extraction\<close>, \<open>generation\<close>, \<open>done\<close>, \<open>error\<close>, \<open>unknown\<close>.\<close>

theorem first_record_counterexample:
  "map_option (firstWrite job1 \<circ> history)
     (step exampleBuiltins (Start 7 (JNum 5) job1) exampleServer)
     = Some (Some (progressRecord (asc ''analysis'') m_analysis))
   \<and> progressRecord (asc ''analysis'') m_analysis
       \<noteq> progressRecord (asc ''extraction'') (asc ''starting'')
   \<and> stageOf (progressRecord (asc ''analysis'') m_analysis)
       \<notin> {JStr (asc ''extraction''), JStr (asc ''generation''), JStr (asc ''done''),
           JStr (asc ''error''), JStr (asc ''unknown'')}"
proof -
  have s1: "step exampleBuiltins (Start 7 (JNum 5) job1) exampleServer
              = Some (snd (launchJob exampleBuiltins False 7 (JNum 5)
                             (JStr (asc ''7_1700000000000_lecture.mp4'')) job1 exampleServer))"
    by (rule start_on_example) (simp_all add: example_conv num05)
  have "progressRecord (asc ''analysis'') m_analysis
         \<noteq> progressRecord (asc ''extraction'') (asc ''starting'')"
    by (simp add: progressRecord_def asc_def)
  then show ?thesis
    using stage_vocab
    by (simp add: s1 launchJob_fields example_conv initialRecord_def stage_simps
             del: step.simps)
qed



text \<open>
  The failures of a worker that the orchestrator hears of. When the worker of a job ends by
  the event \<open>error\<close> or by an exit whose code is not 0, the orchestrator writes a record
  of the stage \<open>error\<close> with a diagnostic message (the error, or \<open>worker exit\<close> and the
  code). Whatever happens afterwards, makeQA is never launched for the job, no record of
  the stage \<open>qa\<close>, the stage of the generation, is ever written for it, and its record
  stays the error record.
\<close>

lemma worker_failure_halts:
  assumes "fresh s0" and "run js es1 s0 = Some s1"
      and "ev = WorkerError j e \<or> (ev = WorkerExit j code \<and> code \<noteq> Some 0)"
      and "step js ev s1 = Some s2" and "run js es2 s2 = Some s"
  shows "history s2 = history s1 @ [Wrote j (progressRecord (asc ''error'')
                         (if ev = WorkerError j e then e else asc ''worker exit '' @ codeStr code))]
       \<and> readProgress s j = progressRecord (asc ''error'')
                         (if ev = WorkerError j e then e else asc ''worker exit '' @ codeStr code)
       \<and> Spawned MakeQA j \<notin> set (history s)
       \<and> (\<forall>r. Wrote j r \<in> set (history s) \<longrightarrow>
             stageOf r \<noteq> JStr (asc ''qa'') \<and> stageOf r \<noteq> JStr (asc ''generation''))"
proof -
  let ?msg = "if ev = WorkerError j e then e else asc ''worker exit '' @ codeStr code"
  let ?rec = "progressRecord (asc ''error'') ?msg"
  have inv: "chainInv s1"
    using chainInv_step fresh_chainInv [OF assms(1)] assms(2) by (rule run_invariant)
  have alive: "j \<in> set (workers s1)"
    using assms(3,4) by (auto split: if_splits)
  have s2: "s2 = writeProgress j ?rec (s1\<lparr>workers := removeAll j (workers s1)\<rparr>)"
    using assms(3,4) alive by (auto simp: onWorkerError_def onWorkerExit_def)
  then have hist: "history s2 = history s1 @ [Wrote j ?rec]"
    by (simp add: writeProgress_def)
  have old: "\<forall>r. Wrote j r \<in> set (history s1) \<longrightarrow> r = initialRecord"
    and noqa: "Spawned MakeQA j \<notin> set (history s1)" and nq: "j \<notin> set (qas s1)"
    and dr: "j \<in> set (drawn s1)"
    using inv alive by (auto simp: chainInv_def)
  have "failedJob j ?rec s2"
    unfolding failedJob_def
    using old noqa nq dr
    by (auto simp: s2 writeProgress_def stage_simps initialRecord_def stage_names)
  with failedJob_step have "failedJob j ?rec s"
    using assms(5) by (rule run_invariant)
  then show ?thesis
    using hist by (simp add: failedJob_def readProgress_def)
qed

text \<open>
  A start request that draws an identifier and leaves no worker alive is one whose handler
  has thrown after the first record. Whatever happens afterwards, the orchestrator writes
  no other record for the job, no record of the stage \<open>error\<close> in particular, and the
  progress file of the job keeps the first record.
\<close>

lemma launch_throw_strands:
  assumes "fresh s0" and "run js es1 s0 = Some s1"
      and "e = Start u c j \<or> e = StartSpawnThrows u c j"
      and "step js e s1 = Some s2"
      and "j \<in> set (drawn s2)" and "j \<notin> set (workers s2)"
      and "run js es2 s2 = Some s"
  shows "readProgress s j = initialRecord
       \<and> (\<forall>r. Wrote j r \<in> set (history s) \<longrightarrow> r = initialRecord)
       \<and> (\<forall>st. Spawned st j \<notin> set (history s))"
proof -
  let ?key = "decStr (int u) @ asc '':'' @ strOf js c"
  have inv: "chainInv s1"
    using chainInv_step fresh_chainInv [OF assms(1)] assms(2) by (rule run_invariant)
  have nd: "j \<notin> set (drawn s1)"
    using assms(3,4) by (auto split: if_splits)
  have "quiet s1 s2 \<or> launched ?key j s1 s2 \<or> thrown ?key j s1 s2"
    using assms(4,3) by (rule start_effect)
  then have t: "thrown ?key j s1 s2"
    using nd assms(5,6) by (auto simp: outcome_defs)
  have h: "\<forall>a\<in>set (history s1). jobOf a \<in> set (drawn s1)"
    and w: "set (workers s1) \<subseteq> set (drawn s1)" and q: "set (qas s1) \<subseteq> set (drawn s1)"
    using inv by (simp_all add: chainInv_def)
  have "\<forall>a\<in>set (history s1). jobOf a \<noteq> j" using h nd by auto
  then have "strandedJob j s2"
    using t w q nd unfolding strandedJob_def outcome_defs by auto
  with strandedJob_step have "strandedJob j s"
    using assms(7) by (rule run_invariant)
  then have a: "\<forall>a\<in>set (history s). jobOf a = j \<longrightarrow> a = Wrote j initialRecord"
    and f: "files s (progressFile j) = Some (Json initialRecord)"
    by (simp_all add: strandedJob_def)
  have "r = initialRecord" if "Wrote j r \<in> set (history s)" for r
    using a that by force
  moreover have "Spawned st j \<notin> set (history s)" for st
    using a by force
  ultimately show ?thesis
    using f by (simp add: readProgress_def)
qed

text \<open>
  Claim C6 on the code. Conversation 5 of user 7 has the metadata \<open>{stored_filename: 5}\<close>.
  The start handler writes the first record and the registry entry and then throws while it
  builds the argument vector of the worker: the launch fails, no worker is alive and no
  handler is attached, so that neither event of the worker can be handled, and no record of
  the stage \<open>error\<close> is written: the polls by job and by conversation return the record of
  the stage \<open>analysis\<close>.
\<close>

theorem launch_throw_leaves_first_record:
  "map_option (\<lambda>s. (history s, workers s, qas s,
                      getProgress js s 7 (Some job1) None, getProgress js s 7 None (Some (asc ''5'')),
                      step js (WorkerError job1 e) s, step js (WorkerExit job1 code) s))
     (step js (Start 7 (JNum 5) job1) numberNameServer)
   = Some ([Wrote job1 initialRecord], [], [], initialRecord, initialRecord, None, None)"
proof -
  let ?S = "snd (launchJob js False 7 (JNum 5) (JNum 5) job1 numberNameServer)"
  have srv: "drawn numberNameServer = []" "workers numberNameServer = []"
    "qas numberNameServer = []" "history numberNameServer = []"
    "files numberNameServer = Map.empty" "convJobMap numberNameServer = Map.empty"
    "selectConv (conversations numberNameServer) 5 7
       = Some \<lparr>c_user = 7, c_state = Some ROOT_MENU,
               c_meta = Some (JObj [(asc ''stored_filename'', JNum 5),
                                    (asc ''docTitle'', JStr (asc ''lecture.mp4''))])\<rparr>"
    by (simp_all add: numberNameServer_def exampleServer_def selectConv_def)
  have m: "c_meta \<lparr>c_user = 7, c_state = Some ROOT_MENU,
               c_meta = Some (JObj [(asc ''stored_filename'', JNum 5),
                                    (asc ''docTitle'', JStr (asc ''lecture.mp4''))])\<rparr>
             = Some (JObj [(asc ''stored_filename'', JNum 5),
                                    (asc ''docTitle'', JStr (asc ''lecture.mp4''))])"
    by simp
  have name: "map_of [(asc ''stored_filename'', JNum 5), (asc ''docTitle'', JStr (asc ''lecture.mp4''))]
                (asc ''stored_filename'') = Some (JNum 5)"
    by simp
  have s1: "step js (Start 7 (JNum 5) job1) numberNameServer = Some ?S"
    by (rule start_launches [OF _ num05(3) srv(7) m name]) (simp_all add: srv)
  have ne: "asc ''5'' \<noteq> []" by (simp add: asc_def)
  have gone: "step js (WorkerError job1 e) ?S = None" "step js (WorkerExit job1 code) ?S = None"
    by (simp_all add: launchJob_number_fields srv)
  show ?thesis
    by (simp add: s1 gone launchJob_number_fields srv job_facts getProgress_by_job
          getProgress_by_conversation [OF ne] pollKey_example num05(4,6,7) readProgress_def
          del: step.simps strOf.simps)
qed



text \<open>
  Claim C8 on the code. The start handler records the job under the conversation identifier
  as the request wrote it, and the progress handler looks it up under the number of the
  identifier: after two starts for conversation 5 written \<open>05\<close>, the poll by conversation
  finds no job, while the polls by job identifier return the record of the second job and
  the last record of the first. With the identifier written as the number 5 the poll by
  conversation returns the record of the second job.
\<close>

theorem start_key_as_given:
  "map_option (\<lambda>s. (getProgress js s 7 None (Some (asc ''05'')), getProgress js s 7 (Some job2) None,
                      getProgress js s 7 (Some job1) None))
     (run js [Start 7 (JStr (asc ''05'')) job1, WorkerExit job1 (Some 0),
              Start 7 (JStr (asc ''05'')) job2] exampleServer)
   = Some (unknownRecord, initialRecord, qaRecord)
   \<and> map_option (\<lambda>s. (getProgress js s 7 None (Some (asc ''5'')), getProgress js s 7 (Some job2) None,
                      getProgress js s 7 (Some job1) None))
     (run js [Start 7 (JNum 5) job1, WorkerExit job1 (Some 0), Start 7 (JNum 5) job2] exampleServer)
   = Some (initialRecord, initialRecord, qaRecord)"
proof -
  let ?name = "JStr (asc ''7_1700000000000_lecture.mp4'')"
  have run: "run js [Start 7 c job1, WorkerExit job1 (Some 0), Start 7 c job2] exampleServer
        = Some (snd (launchJob js False 7 c ?name job2
             (onWorkerExit job1 (Some 0)
               ((snd (launchJob js False 7 c ?name job1 exampleServer))
                  \<lparr>workers := removeAll job1
                     (workers (snd (launchJob js False 7 c ?name job1 exampleServer)))\<rparr>))))"
    if "numberDesc js c = Finite (Some 5) t" for c t
    using that
    by (simp add: start_on_example [where t = t] workerExit_step launchJob_fields
          onWorkerExit_ok_fields example_conv job_facts job_facts(1) [symmetric]
          del: step.simps strOf.simps)
  have ne: "asc ''05'' \<noteq> []" "asc ''5'' \<noteq> []" by (simp_all add: asc_def)
  have k: "asc ''7'' @ asc '':'' @ asc ''05'' \<noteq> asc ''7'' @ asc '':'' @ asc ''5''"
    "asc ''7'' @ asc '':'' @ asc ''5'' \<noteq> asc ''7'' @ asc '':'' @ asc ''05''"
    "asc ''5'' \<noteq> asc ''05''" "asc ''05'' \<noteq> asc ''5''"
    by (simp_all add: asc_def)
  show ?thesis
    by (simp add: run [OF num05(1)] run [OF num05(3)] getProgress_by_job
          getProgress_by_conversation [OF ne(1)] getProgress_by_conversation [OF ne(2)]
          pollKey_example num05(2,4,6,7) k
          launchJob_fields onWorkerExit_ok_fields example_conv
          readProgress_def progressFile_inj job_facts job_facts(1) [symmetric]
          del: step.simps strOf.simps run.simps)
qed

end
